theory Spec2Isabelle
  imports Complex_Main "HOL-Library.Sublist"
begin

section \<open>View-mode policy (types/viewModes)\<close>

text \<open>
  The four view modes, the unit of a navigation step and of a duration, and the
  sampling rates. In the source a sampling rate is a string: either the token
  \<^verbatim>\<open>adaptive\<close> or one of the nine interval tokens that
  \<^verbatim>\<open>calculateFullViewSampling\<close> can return.
\<close>

datatype ViewModeType = Full | Year1 | Month6 | Month1

datatype step_unit = Day | Month | Year

datatype duration_unit = DMonth | DYear | DAll

datatype resolution =
  Rate15min | Rate30min | Rate1hour | Rate3hour | Rate6hour | Rate12hour
  | Rate1day | Rate2day | Rate1week

datatype sampling_rate = Adaptive | Fixed resolution

record ViewModeConfig =
  id_mode :: ViewModeType
  label :: string
  description :: string
  duration :: "int \<times> duration_unit"
  samplingRate :: sampling_rate
  targetPoints :: int
  preloadStrategy :: "int list"
  navigationStep :: "int \<times> step_unit"

fun VIEW_MODES :: "ViewModeType \<Rightarrow> ViewModeConfig" where
  "VIEW_MODES Full =
     \<lparr>id_mode = Full, label = ''Full Dataset'',
      description = ''Complete data range with adaptive sampling'',
      duration = (0, DAll), samplingRate = Adaptive, targetPoints = 5000,
      preloadStrategy = [0], navigationStep = (1, Year)\<rparr>"
| "VIEW_MODES Year1 =
     \<lparr>id_mode = Year1, label = ''1 Year'',
      description = ''12 months of data at 12-hour resolution'',
      duration = (1, DYear), samplingRate = Fixed Rate12hour, targetPoints = 730,
      preloadStrategy = [-1, 0, 1], navigationStep = (1, Year)\<rparr>"
| "VIEW_MODES Month6 =
     \<lparr>id_mode = Month6, label = ''6 Months'',
      description = ''6 months of data at 6-hour resolution'',
      duration = (6, DMonth), samplingRate = Fixed Rate6hour, targetPoints = 720,
      preloadStrategy = [-1, 0, 1], navigationStep = (6, Month)\<rparr>"
| "VIEW_MODES Month1 =
     \<lparr>id_mode = Month1, label = ''1 Month'',
      description = ''30 days of data at 15-minute resolution'',
      duration = (1, DMonth), samplingRate = Fixed Rate15min, targetPoints = 2880,
      preloadStrategy = [-1, 0, 1], navigationStep = (1, Month)\<rparr>"

section \<open>Resolution resolver (useViewModeData.calculateFullViewSampling)\<close>

text \<open>
  The value of \<^verbatim>\<open>Math.ceil(totalMinutes / targetPoints)\<close>. Both operands are
  integers; JavaScript division by zero gives an infinity or NaN instead of failing,
  and every comparison with NaN is false. The quotient of two integers is taken
  exactly (no rounding of the floating-point division is modelled).
\<close>

datatype jsnum = Num int | PosInf | NegInf | NaN

definition js_div_ceil :: "int \<Rightarrow> int \<Rightarrow> jsnum" where
  "js_div_ceil a b =
     (if b = 0 then (if 0 < a then PosInf else if a < 0 then NegInf else NaN)
      else Num (- ((- a) div b)))"

fun js_le :: "jsnum \<Rightarrow> int \<Rightarrow> bool" where
  "js_le (Num n) k = (n \<le> k)"
| "js_le NegInf k = True"
| "js_le PosInf k = False"
| "js_le NaN k = False"

text \<open>The chain of comparisons "Round to standard intervals" of the source.\<close>

definition standardInterval :: "jsnum \<Rightarrow> resolution" where
  "standardInterval minutesPerPoint =
     (if js_le minutesPerPoint 15 then Rate15min
      else if js_le minutesPerPoint 30 then Rate30min
      else if js_le minutesPerPoint 60 then Rate1hour
      else if js_le minutesPerPoint 180 then Rate3hour
      else if js_le minutesPerPoint 360 then Rate6hour
      else if js_le minutesPerPoint 720 then Rate12hour
      else if js_le minutesPerPoint 1440 then Rate1day
      else if js_le minutesPerPoint 2880 then Rate2day
      else Rate1week)"

text \<open>
  The answer of the range endpoint: \<open>RangeFailed\<close> stands for every path into the
  \<^verbatim>\<open>catch\<close> block (network error, a response that is not ok, a body without
  \<^verbatim>\<open>success\<close> or \<^verbatim>\<open>data\<close>); \<open>RangeData startDate endDate\<close> carries the two
  dates of a good answer. \<open>differenceInDays\<close> is the date-fns function, taken as a
  parameter over any representation \<open>'d\<close> of dates.
\<close>

datatype 'd range_response = RangeFailed | RangeData 'd 'd

definition calculateFullViewSampling ::
  "('d \<Rightarrow> 'd \<Rightarrow> int) \<Rightarrow> ViewModeConfig \<Rightarrow> 'd range_response \<Rightarrow> resolution" where
  "calculateFullViewSampling differenceInDays config response =
     (case response of
        RangeFailed \<Rightarrow> Rate1day
      | RangeData startDate endDate \<Rightarrow>
          (let totalDays = differenceInDays endDate startDate;
               totalMinutes = totalDays * 24 * 60;
               minutesPerPoint = js_div_ceil totalMinutes (targetPoints config)
           in standardInterval minutesPerPoint))"

text \<open>
  The resolver as the specification words it: the ordered ladder of resolutions with
  their lengths in minutes, and the first rung that is at least \<open>minutesPerPoint\<close>,
  the coarsest rung when there is none.
\<close>

definition ladder :: "(int \<times> resolution) list" where
  "ladder = [(15, Rate15min), (30, Rate30min), (60, Rate1hour), (180, Rate3hour),
             (360, Rate6hour), (720, Rate12hour), (1440, Rate1day), (2880, Rate2day),
             (10080, Rate1week)]"

definition first_rung_at_least :: "real \<Rightarrow> resolution" where
  "first_rung_at_least minutesPerPoint =
     (case find (\<lambda>(minutes, r). minutesPerPoint \<le> real_of_int minutes) ladder of
        Some (minutes, r) \<Rightarrow> r
      | None \<Rightarrow> Rate1week)"

text \<open>The position of a resolution in the ladder, finest first.\<close>

fun ladder_position :: "resolution \<Rightarrow> nat" where
  "ladder_position Rate15min = 0"
| "ladder_position Rate30min = 1"
| "ladder_position Rate1hour = 2"
| "ladder_position Rate3hour = 3"
| "ladder_position Rate6hour = 4"
| "ladder_position Rate12hour = 5"
| "ladder_position Rate1day = 6"
| "ladder_position Rate2day = 7"
| "ladder_position Rate1week = 8"

section \<open>Dates\<close>

text \<open>
  A JavaScript \<^verbatim>\<open>Date\<close> is represented by its calendar fields, named after the
  accessors that read them: \<open>getMonth\<close> counts from 0 (January), \<open>getDate\<close> is the
  day of the month. One time zone of fixed offset (UTC) is assumed, so the fields
  that \<^verbatim>\<open>toISOString\<close> prints are the fields that date-fns works on. An Invalid
  Date has no representation: \<^verbatim>\<open>toISOString\<close> raises a RangeError on it.
\<close>

record Date =
  getFullYear :: int
  getMonth :: nat
  getDate :: nat
  getHours :: nat
  getMinutes :: nat
  getSeconds :: nat
  getMilliseconds :: nat

definition is_leap_year :: "int \<Rightarrow> bool" where
  "is_leap_year y = (y mod 4 = 0 \<and> (y mod 100 \<noteq> 0 \<or> y mod 400 = 0))"

definition days_in_month :: "int \<Rightarrow> nat \<Rightarrow> nat" where
  "days_in_month y m =
     (if m = 1 then (if is_leap_year y then 29 else 28)
      else if m = 3 \<or> m = 5 \<or> m = 8 \<or> m = 10 then 30 else 31)"

text \<open>
  The dates a \<^verbatim>\<open>Date\<close> object can hold: ECMAScript's time values reach from year
  -271821 to year 275760.
\<close>

definition valid_date :: "Date \<Rightarrow> bool" where
  "valid_date d =
     (- 271821 \<le> getFullYear d \<and> getFullYear d \<le> 275760 \<and> getMonth d < 12 \<and>
      1 \<le> getDate d \<and> getDate d \<le> days_in_month (getFullYear d) (getMonth d) \<and>
      getHours d < 24 \<and> getMinutes d < 60 \<and> getSeconds d < 60 \<and> getMilliseconds d < 1000)"

text \<open>
  \<^verbatim>\<open>getTime\<close>: milliseconds since 1970-01-01T00:00:00.000Z, through the number of
  days from the civil date. Comparing two \<^verbatim>\<open>Date\<close> objects with \<^verbatim>\<open><=\<close> or
  \<^verbatim>\<open>>=\<close> compares these numbers.
\<close>

definition days_from_civil :: "int \<Rightarrow> nat \<Rightarrow> nat \<Rightarrow> int" where
  "days_from_civil y m d =
     (let y' = (if m < 2 then y - 1 else y);
          era = y' div 400;
          yoe = y' - era * 400;
          mp = (int m + 10) mod 12;
          doy = (153 * mp + 2) div 5 + int d - 1;
          doe = yoe * 365 + yoe div 4 - yoe div 100 + doy
      in era * 146097 + doe - 719468)"

definition getTime :: "Date \<Rightarrow> int" where
  "getTime d =
     days_from_civil (getFullYear d) (getMonth d) (getDate d) * 86400000
     + int (getHours d) * 3600000 + int (getMinutes d) * 60000
     + int (getSeconds d) * 1000 + int (getMilliseconds d)"

subsection \<open>toISOString\<close>

definition digit_char :: "nat \<Rightarrow> char" where
  "digit_char n = ''0123456789'' ! (n mod 10)"

text \<open>The decimal digits of \<open>n\<close>, padded with zeros to \<open>w\<close> characters.\<close>

fun pad :: "nat \<Rightarrow> nat \<Rightarrow> string" where
  "pad 0 n = []"
| "pad (Suc w) n = pad w (n div 10) @ [digit_char (n mod 10)]"

text \<open>Four digits for the years 0 to 9999, a sign and six digits for the others.\<close>

definition year_string :: "int \<Rightarrow> string" where
  "year_string y =
     (if 0 \<le> y \<and> y \<le> 9999 then pad 4 (nat y)
      else (if y < 0 then CHR ''-'' else CHR ''+'') # pad 6 (nat \<bar>y\<bar>))"

definition toISOString :: "Date \<Rightarrow> string" where
  "toISOString d =
     year_string (getFullYear d) @ ''-'' @ pad 2 (getMonth d + 1) @ ''-'' @ pad 2 (getDate d)
     @ ''T'' @ pad 2 (getHours d) @ '':'' @ pad 2 (getMinutes d) @ '':'' @ pad 2 (getSeconds d)
     @ ''.'' @ pad 3 (getMilliseconds d) @ ''Z''"

subsection \<open>date-fns\<close>

text \<open>
  \<^verbatim>\<open>addMonths\<close> moves to the month \<open>amount\<close> months away and keeps the day of the
  month, or takes the last day of that month when it is shorter; the time of day is
  kept. The others are defined from it, as date-fns does.
\<close>

definition addMonths :: "Date \<Rightarrow> int \<Rightarrow> Date" where
  "addMonths d amount =
     (let total = int (getMonth d) + amount;
          y = getFullYear d + total div 12;
          m = nat (total mod 12);
          daysInMonth = days_in_month y m
      in if getDate d \<ge> daysInMonth
         then d\<lparr>getFullYear := y, getMonth := m, getDate := daysInMonth\<rparr>
         else d\<lparr>getFullYear := y, getMonth := m\<rparr>)"

definition subMonths :: "Date \<Rightarrow> int \<Rightarrow> Date" where
  "subMonths d amount = addMonths d (- amount)"

definition addYears :: "Date \<Rightarrow> int \<Rightarrow> Date" where
  "addYears d amount = addMonths d (amount * 12)"

definition subYears :: "Date \<Rightarrow> int \<Rightarrow> Date" where
  "subYears d amount = addYears d (- amount)"

definition startOfMonth :: "Date \<Rightarrow> Date" where
  "startOfMonth d =
     d\<lparr>getDate := 1, getHours := 0, getMinutes := 0, getSeconds := 0, getMilliseconds := 0\<rparr>"

definition endOfMonth :: "Date \<Rightarrow> Date" where
  "endOfMonth d =
     d\<lparr>getDate := days_in_month (getFullYear d) (getMonth d),
       getHours := 23, getMinutes := 59, getSeconds := 59, getMilliseconds := 999\<rparr>"

text \<open>A calendar day at midnight, for writing dates down.\<close>

definition ymd :: "int \<Rightarrow> nat \<Rightarrow> nat \<Rightarrow> Date" where
  "ymd y m d =
     \<lparr>getFullYear = y, getMonth = m - 1, getDate = d, getHours = 0, getMinutes = 0,
      getSeconds = 0, getMilliseconds = 0\<rparr>"

section \<open>Durable key-value store (IndexedDBCache)\<close>

text \<open>
  The object store has the key path \<^verbatim>\<open>key\<close>: it holds at most one entry per key,
  and \<^verbatim>\<open>put\<close> replaces the entry of a key that is present. It is a list of pairs
  of a key and its entry; \<^verbatim>\<open>Date.now()\<close> is the argument \<open>now\<close> of the operations
  that read the clock. The database is taken to open and every request to succeed
  (the paths through \<^verbatim>\<open>reject\<close> are not modelled). IndexedDB lists keys in
  ascending order; here they come in the order of the list.
\<close>

record 'a CacheEntry =
  key :: string
  data :: 'a
  timestamp :: int
  ttl :: int

type_synonym 'a object_store = "(string \<times> 'a CacheEntry) list"

fun store_put :: "string \<Rightarrow> 'a CacheEntry \<Rightarrow> 'a object_store \<Rightarrow> 'a object_store" where
  "store_put k e [] = [(k, e)]"
| "store_put k e ((k', e') # s) = (if k' = k then (k, e) # s else (k', e') # store_put k e s)"

definition set_idb :: "int \<Rightarrow> string \<Rightarrow> 'a \<Rightarrow> int \<Rightarrow> 'a object_store \<Rightarrow> 'a object_store" where
  "set_idb now k d t s = store_put k \<lparr>key = k, data = d, timestamp = now, ttl = t\<rparr> s"

definition delete_idb :: "string \<Rightarrow> 'a object_store \<Rightarrow> 'a object_store" where
  "delete_idb k s = filter (\<lambda>(k', e). k' \<noteq> k) s"

text \<open>
  \<^verbatim>\<open>get\<close> returns the payload, or \<open>None\<close> for \<^verbatim>\<open>null\<close>; an expired entry is
  deleted. The source starts that deletion without waiting for it; here it has
  happened when \<open>get_idb\<close> returns.
\<close>

definition get_idb :: "int \<Rightarrow> string \<Rightarrow> 'a object_store \<Rightarrow> 'a option \<times> 'a object_store" where
  "get_idb now k s =
     (case map_of s k of
        None \<Rightarrow> (None, s)
      | Some entry \<Rightarrow>
          if now > timestamp entry + ttl entry then (None, delete_idb k s)
          else (Some (data entry), s))"

definition clear_idb :: "'a object_store \<Rightarrow> 'a object_store" where
  "clear_idb s = []"

definition getAllKeys :: "'a object_store \<Rightarrow> string list" where
  "getAllKeys s = map fst s"

definition size_idb :: "'a object_store \<Rightarrow> nat" where
  "size_idb s = length s"

section \<open>JavaScript numbers\<close>

text \<open>
  A JavaScript number is an IEEE 754 double. A finite double is written \<open>Dbl m e\<close>
  for the value \<open>m * 2 ^ e\<close>; the others are the two infinities and NaN. Every
  operation rounds its exact result to the nearest double, ties to the even
  mantissa, with 53 bits of mantissa, the smallest exponent of the subnormal numbers
  and overflow to an infinity. The sign of a zero is not kept.
\<close>

datatype double = Dbl int int | DInf | DNegInf | DNaN

text \<open>The number of binary digits of \<open>n\<close>.\<close>

fun bit_length :: "nat \<Rightarrow> nat" where
  "bit_length n = (if n = 0 then 0 else Suc (bit_length (n div 2)))"

declare bit_length.simps [simp del]

text \<open>The quotient \<open>n / d\<close> rounded to the nearest natural number, a tie to the even one.\<close>

definition round_half_even :: "nat \<Rightarrow> nat \<Rightarrow> nat" where
  "round_half_even n d =
     (let q = n div d; r = n mod d
      in if 2 * r < d then q else if d < 2 * r then q + 1
         else if even q then q else q + 1)"

text \<open>
  The double nearest to the fraction \<open>p / q\<close> (with \<open>q\<close> positive): the exponent \<open>e\<close>
  is the one that puts the mantissa between \<open>2 ^ 52\<close> and \<open>2 ^ 53\<close>, and not below
  \<open>- 1074\<close>; a mantissa that rounds up to \<open>2 ^ 53\<close> is written with the next
  exponent, a value that rounds to \<open>2 ^ 1024\<close> or more is an infinity, and one that
  rounds to nothing is zero. So a double other than zero is written in one way.
\<close>

definition round_to_double :: "int \<Rightarrow> nat \<Rightarrow> double" where
  "round_to_double p q =
     (if p = 0 then Dbl 0 0
      else
        (let a = nat \<bar>p\<bar>;
             e0 = int (bit_length a) - int (bit_length q) - 53;
             e1 = (if e0 \<ge> 0 then (if a \<ge> 2 ^ 53 * q * 2 ^ nat e0 then e0 + 1 else e0)
                   else (if a * 2 ^ nat (- e0) \<ge> 2 ^ 53 * q then e0 + 1 else e0));
             e = max e1 (- 1074);
             m0 = (if e \<ge> 0 then round_half_even a (q * 2 ^ nat e)
                   else round_half_even (a * 2 ^ nat (- e)) q);
             (m, e') = (if m0 = 2 ^ 53 then (2 ^ 52, e + 1) else (m0, e))
         in if m = 0 then Dbl 0 0
            else if e' > 971 then (if p < 0 then DNegInf else DInf)
            else Dbl (if p < 0 then - int m else int m) e'))"

text \<open>The double nearest to \<open>(p / q) * 2 ^ e\<close>.\<close>

definition round_scaled :: "int \<Rightarrow> nat \<Rightarrow> int \<Rightarrow> double" where
  "round_scaled p q e =
     (if e \<ge> 0 then round_to_double (p * 2 ^ nat e) q else round_to_double p (q * 2 ^ nat (- e)))"

fun fl_mul :: "double \<Rightarrow> double \<Rightarrow> double" where
  "fl_mul (Dbl m1 e1) (Dbl m2 e2) = round_scaled (m1 * m2) 1 (e1 + e2)"
| "fl_mul DNaN y = DNaN"
| "fl_mul x DNaN = DNaN"
| "fl_mul (Dbl m e) DInf = (if m = 0 then DNaN else if m > 0 then DInf else DNegInf)"
| "fl_mul (Dbl m e) DNegInf = (if m = 0 then DNaN else if m > 0 then DNegInf else DInf)"
| "fl_mul DInf (Dbl m e) = (if m = 0 then DNaN else if m > 0 then DInf else DNegInf)"
| "fl_mul DNegInf (Dbl m e) = (if m = 0 then DNaN else if m > 0 then DNegInf else DInf)"
| "fl_mul DInf DInf = DInf"
| "fl_mul DInf DNegInf = DNegInf"
| "fl_mul DNegInf DInf = DNegInf"
| "fl_mul DNegInf DNegInf = DInf"

fun fl_add :: "double \<Rightarrow> double \<Rightarrow> double" where
  "fl_add (Dbl m1 e1) (Dbl m2 e2) =
     (let e = min e1 e2
      in round_scaled (m1 * 2 ^ nat (e1 - e) + m2 * 2 ^ nat (e2 - e)) 1 e)"
| "fl_add DNaN y = DNaN"
| "fl_add x DNaN = DNaN"
| "fl_add DInf DNegInf = DNaN"
| "fl_add DNegInf DInf = DNaN"
| "fl_add DInf y = DInf"
| "fl_add DNegInf y = DNegInf"
| "fl_add x DInf = DInf"
| "fl_add x DNegInf = DNegInf"

fun fl_div :: "double \<Rightarrow> double \<Rightarrow> double" where
  "fl_div (Dbl m1 e1) (Dbl m2 e2) =
     (if m2 = 0 then (if m1 = 0 then DNaN else if m1 > 0 then DInf else DNegInf)
      else round_scaled (if m2 < 0 then - m1 else m1) (nat \<bar>m2\<bar>) (e1 - e2))"
| "fl_div DNaN y = DNaN"
| "fl_div x DNaN = DNaN"
| "fl_div (Dbl m e) DInf = Dbl 0 0"
| "fl_div (Dbl m e) DNegInf = Dbl 0 0"
| "fl_div DInf (Dbl m e) = (if m < 0 then DNegInf else DInf)"
| "fl_div DNegInf (Dbl m e) = (if m < 0 then DInf else DNegInf)"
| "fl_div DInf y = DNaN"
| "fl_div DNegInf y = DNaN"

text \<open>An integer as a double: exact up to \<open>2 ^ 53\<close>.\<close>

definition double_of_int :: "int \<Rightarrow> double" where
  "double_of_int n = round_to_double n 1"

text \<open>The real number that a finite double stands for.\<close>

definition double_value :: "double \<Rightarrow> real" where
  "double_value x =
     (case x of
        Dbl m e \<Rightarrow> (if e \<ge> 0 then real_of_int m * 2 ^ nat e else real_of_int m / 2 ^ nat (- e))
      | _ \<Rightarrow> 0)"

section \<open>Time-series segment cache (SmartTimeSeriesCache)\<close>

text \<open>
  The payload of an entry is an array of \<^verbatim>\<open>TimeSeriesData\<close>, a list over any
  type \<open>'r\<close> of readings. \<^verbatim>\<open>if (data)\<close> on the result of \<^verbatim>\<open>get\<close> tests for
  \<^verbatim>\<open>null\<close>: every array, the empty one too, is truthy in JavaScript. The hit
  rate and the average response time are doubles, computed with the rounding of
  each operation of the source; the counters are natural numbers, which a double
  holds exactly below \<open>2 ^ 53\<close>.
\<close>

record CacheStats =
  hitRate :: double
  totalRequests :: nat
  totalHits :: nat
  cacheSize :: nat
  avgResponseTime :: double

record 'r SmartTimeSeriesCache =
  db :: "'r list object_store"
  stats :: CacheStats

definition new_SmartTimeSeriesCache :: "'r SmartTimeSeriesCache" where
  "new_SmartTimeSeriesCache =
     \<lparr>db = [],
      stats = \<lparr>hitRate = Dbl 0 0, totalRequests = 0, totalHits = 0, cacheSize = 0,
               avgResponseTime = Dbl 0 0\<rparr>\<rparr>"

definition cacheTimeSeriesData ::
  "int \<Rightarrow> string \<Rightarrow> 'r list \<Rightarrow> int \<Rightarrow> 'r SmartTimeSeriesCache \<Rightarrow> 'r SmartTimeSeriesCache" where
  "cacheTimeSeriesData now k d t c =
     (let db' = set_idb now k d t (db c)
      in c\<lparr>db := db', stats := (stats c)\<lparr>cacheSize := size_idb db'\<rparr>\<rparr>)"

text \<open>
  \<open>elapsed\<close> is \<^verbatim>\<open>Date.now() - startTime\<close>, the time the lookup took; \<open>now\<close> is the
  clock that \<^verbatim>\<open>get\<close> reads.
\<close>

definition getTimeSeriesData ::
  "int \<Rightarrow> int \<Rightarrow> string \<Rightarrow> 'r SmartTimeSeriesCache \<Rightarrow> 'r list option \<times> 'r SmartTimeSeriesCache" where
  "getTimeSeriesData now elapsed k c =
     (let requests = totalRequests (stats c) + 1;
          (d, db') = get_idb now k (db c);
          hits = (if d \<noteq> None then totalHits (stats c) + 1 else totalHits (stats c));
          st = (stats c)\<lparr>
                 totalRequests := requests,
                 totalHits := hits,
                 hitRate :=
                   fl_mul (fl_div (double_of_int (int hits)) (double_of_int (int requests)))
                     (double_of_int 100),
                 avgResponseTime :=
                   fl_div
                     (fl_add
                        (fl_mul (avgResponseTime (stats c))
                           (fl_add (double_of_int (int requests)) (double_of_int (- 1))))
                        (double_of_int elapsed))
                     (double_of_int (int requests))\<rparr>
      in (d, c\<lparr>db := db', stats := st\<rparr>))"

datatype data_resolution = High | Medium | Low

fun resolution_token :: "data_resolution \<Rightarrow> string" where
  "resolution_token High = ''high''"
| "resolution_token Medium = ''medium''"
| "resolution_token Low = ''low''"

text \<open>
  The key that \<^verbatim>\<open>getDataRange\<close>, \<^verbatim>\<open>cacheDataRange\<close> and \<^verbatim>\<open>preloadData\<close> build
  with the same template string.
\<close>

definition dataRangeKey :: "string \<Rightarrow> Date \<Rightarrow> Date \<Rightarrow> data_resolution \<Rightarrow> string" where
  "dataRangeKey wellNumber startDate endDate res =
     wellNumber @ ''-'' @ toISOString startDate @ ''-'' @ toISOString endDate
     @ ''-'' @ resolution_token res"

definition getDataRange ::
  "int \<Rightarrow> int \<Rightarrow> string \<Rightarrow> Date \<Rightarrow> Date \<Rightarrow> data_resolution \<Rightarrow> 'r SmartTimeSeriesCache
   \<Rightarrow> 'r list option \<times> 'r SmartTimeSeriesCache" where
  "getDataRange now elapsed wellNumber startDate endDate res c =
     getTimeSeriesData now elapsed (dataRangeKey wellNumber startDate endDate res) c"

definition cacheDataRange ::
  "int \<Rightarrow> string \<Rightarrow> Date \<Rightarrow> Date \<Rightarrow> 'r list \<Rightarrow> data_resolution \<Rightarrow> int
   \<Rightarrow> 'r SmartTimeSeriesCache \<Rightarrow> 'r SmartTimeSeriesCache" where
  "cacheDataRange now wellNumber startDate endDate d res t c =
     cacheTimeSeriesData now (dataRangeKey wellNumber startDate endDate res) d t c"

text \<open>
  \<^verbatim>\<open>invalidateWellData\<close> deletes the keys that start with the well number and a
  dash, one after the other, and returns nothing.
\<close>

definition invalidateWellData :: "string \<Rightarrow> 'r SmartTimeSeriesCache \<Rightarrow> 'r SmartTimeSeriesCache" where
  "invalidateWellData wellNumber c =
     (let allKeys = getAllKeys (db c);
          wellKeys = filter (\<lambda>k. prefix (wellNumber @ ''-'') k) allKeys;
          db' = fold delete_idb wellKeys (db c)
      in c\<lparr>db := db', stats := (stats c)\<lparr>cacheSize := size_idb db'\<rparr>\<rparr>)"

definition getStats :: "'r SmartTimeSeriesCache \<Rightarrow> CacheStats \<times> 'r SmartTimeSeriesCache" where
  "getStats c =
     (let c' = c\<lparr>stats := (stats c)\<lparr>cacheSize := size_idb (db c)\<rparr>\<rparr>
      in (stats c', c'))"

definition clearStats :: "'r SmartTimeSeriesCache \<Rightarrow> 'r SmartTimeSeriesCache" where
  "clearStats c =
     c\<lparr>stats := \<lparr>hitRate = Dbl 0 0, totalRequests = 0, totalHits = 0,
                 cacheSize = size_idb (db c), avgResponseTime = Dbl 0 0\<rparr>\<rparr>"

subsection \<open>Histories of cache operations\<close>

text \<open>
  The operations on one cache object, and the state after a history of them. A
  history lists the operations from the most recent one back to the first one.
\<close>

datatype 'r cache_op =
  Lookup int int string
  | Store int string "'r list" int
  | Invalidate string
  | ReadStats
  | ResetStats

fun apply_op :: "'r cache_op \<Rightarrow> 'r SmartTimeSeriesCache \<Rightarrow> 'r SmartTimeSeriesCache" where
  "apply_op (Lookup now elapsed k) c = snd (getTimeSeriesData now elapsed k c)"
| "apply_op (Store now k d t) c = cacheTimeSeriesData now k d t c"
| "apply_op (Invalidate w) c = invalidateWellData w c"
| "apply_op ReadStats c = snd (getStats c)"
| "apply_op ResetStats c = clearStats c"

fun state_after :: "'r cache_op list \<Rightarrow> 'r SmartTimeSeriesCache \<Rightarrow> 'r SmartTimeSeriesCache" where
  "state_after [] c = c"
| "state_after (x # h) c = apply_op x (state_after h c)"

text \<open>The number of lookups since the last reset of the statistics.\<close>

fun lookups_since_reset :: "'r cache_op list \<Rightarrow> nat" where
  "lookups_since_reset [] = 0"
| "lookups_since_reset (Lookup now elapsed k # h) = Suc (lookups_since_reset h)"
| "lookups_since_reset (ResetStats # h) = 0"
| "lookups_since_reset (x # h) = lookups_since_reset h"

text \<open>
  The number of those lookups for which the store's \<^verbatim>\<open>get\<close> returned a payload,
  in the state the cache was in when the lookup was made.
\<close>

fun hits_since_reset :: "'r cache_op list \<Rightarrow> 'r SmartTimeSeriesCache \<Rightarrow> nat" where
  "hits_since_reset [] c = 0"
| "hits_since_reset (Lookup now elapsed k # h) c =
     hits_since_reset h c
     + (case fst (get_idb now k (db (state_after h c))) of None \<Rightarrow> 0 | Some d \<Rightarrow> 1)"
| "hits_since_reset (ResetStats # h) c = 0"
| "hits_since_reset (x # h) c = hits_since_reset h c"


text \<open>
  An example history: a payload is stored under the key \<open>a\<close>, nine lookups of the
  key \<open>b\<close> find nothing, then eleven lookups of the key \<open>a\<close>, all before the entry
  expires, find the payload.
\<close>

definition eleven_of_twenty :: "nat cache_op list" where
  "eleven_of_twenty =
     replicate 11 (Lookup 10 1 ''a'') @ replicate 9 (Lookup 10 1 ''b'')
     @ [Store 0 ''a'' [1] 3600000]"

section \<open>View navigation state machine (ViewModeContext)\<close>

record date_range =
  range_start :: Date
  range_end :: Date

record cache_status =
  isCached :: bool
  isPreloading :: bool
  cachedRanges :: "date_range list"

record ViewModeState =
  currentMode :: ViewModeType
  centerDate :: Date
  dateRange :: date_range
  isLoading :: bool
  cacheStatus :: cache_status

text \<open>
  \<open>dataRange\<close> is the optional property of the provider, the known span of the
  dataset; \<open>now\<close> is \<^verbatim>\<open>new Date()\<close>, read in the branch for the full mode without
  a data range.
\<close>

definition calculateDateRange ::
  "date_range option \<Rightarrow> Date \<Rightarrow> ViewModeType \<Rightarrow> Date \<Rightarrow> date_range" where
  "calculateDateRange dataRange now mode center =
     (case (mode, dataRange) of
        (Full, Some dr) \<Rightarrow> \<lparr>range_start = range_start dr, range_end = range_end dr\<rparr>
      | _ \<Rightarrow>
        (case mode of
           Year1 \<Rightarrow> \<lparr>range_start = subMonths center 6, range_end = addMonths center 6\<rparr>
         | Month6 \<Rightarrow> \<lparr>range_start = subMonths center 3, range_end = addMonths center 3\<rparr>
         | Month1 \<Rightarrow> \<lparr>range_start = startOfMonth center, range_end = endOfMonth center\<rparr>
         | Full \<Rightarrow> \<lparr>range_start = subYears now 5, range_end = now\<rparr>))"

definition setViewMode :: "ViewModeType \<Rightarrow> ViewModeState \<Rightarrow> ViewModeState" where
  "setViewMode mode vm =
     vm\<lparr>currentMode := mode,
        cacheStatus := \<lparr>isCached = False, isPreloading = False, cachedRanges = []\<rparr>\<rparr>"

definition setCenterDate :: "Date \<Rightarrow> ViewModeState \<Rightarrow> ViewModeState" where
  "setCenterDate d vm = vm\<lparr>centerDate := d\<rparr>"

text \<open>The effect that recomputes the range after the mode or the center date changed.\<close>

definition updateDateRange :: "date_range option \<Rightarrow> Date \<Rightarrow> ViewModeState \<Rightarrow> ViewModeState" where
  "updateDateRange dataRange now vm =
     vm\<lparr>dateRange := calculateDateRange dataRange now (currentMode vm) (centerDate vm)\<rparr>"

definition navigatePrevious :: "ViewModeState \<Rightarrow> ViewModeState" where
  "navigatePrevious vm =
     (let step = navigationStep (VIEW_MODES (currentMode vm));
          newDate = (case snd step of
                       Year \<Rightarrow> subYears (centerDate vm) (fst step)
                     | Month \<Rightarrow> subMonths (centerDate vm) (fst step)
                     | Day \<Rightarrow> centerDate vm)
      in setCenterDate newDate vm)"

definition navigateNext :: "ViewModeState \<Rightarrow> ViewModeState" where
  "navigateNext vm =
     (let step = navigationStep (VIEW_MODES (currentMode vm));
          newDate = (case snd step of
                       Year \<Rightarrow> addYears (centerDate vm) (fst step)
                     | Month \<Rightarrow> addMonths (centerDate vm) (fst step)
                     | Day \<Rightarrow> centerDate vm)
      in setCenterDate newDate vm)"

definition navigateToDate :: "Date \<Rightarrow> ViewModeState \<Rightarrow> ViewModeState" where
  "navigateToDate d vm = setCenterDate d vm"

definition canNavigatePrevious :: "date_range option \<Rightarrow> Date \<Rightarrow> ViewModeState \<Rightarrow> bool" where
  "canNavigatePrevious dataRange now vm =
     (case dataRange of
        None \<Rightarrow> True
      | Some dr \<Rightarrow>
          (let step = navigationStep (VIEW_MODES (currentMode vm));
               testDate = (case snd step of
                             Year \<Rightarrow> subYears (centerDate vm) (fst step)
                           | Month \<Rightarrow> subMonths (centerDate vm) (fst step)
                           | Day \<Rightarrow> centerDate vm);
               testRange = calculateDateRange dataRange now (currentMode vm) testDate
           in getTime (range_start testRange) \<ge> getTime (range_start dr)))"

definition canNavigateNext :: "date_range option \<Rightarrow> Date \<Rightarrow> ViewModeState \<Rightarrow> bool" where
  "canNavigateNext dataRange now vm =
     (case dataRange of
        None \<Rightarrow> True
      | Some dr \<Rightarrow>
          (let step = navigationStep (VIEW_MODES (currentMode vm));
               testDate = (case snd step of
                             Year \<Rightarrow> addYears (centerDate vm) (fst step)
                           | Month \<Rightarrow> addMonths (centerDate vm) (fst step)
                           | Day \<Rightarrow> centerDate vm);
               testRange = calculateDateRange dataRange now (currentMode vm) testDate
           in getTime (range_end testRange) \<le> getTime (range_end dr)))"

text \<open>
  The range one navigation step away: the range that \<open>calculateDateRange\<close> derives
  from the center date that \<open>navigateNext\<close> or \<open>navigatePrevious\<close> sets.
\<close>

definition rangeAfterNext :: "date_range option \<Rightarrow> Date \<Rightarrow> ViewModeState \<Rightarrow> date_range" where
  "rangeAfterNext dataRange now vm =
     dateRange (updateDateRange dataRange now (navigateNext vm))"

definition rangeAfterPrevious :: "date_range option \<Rightarrow> Date \<Rightarrow> ViewModeState \<Rightarrow> date_range" where
  "rangeAfterPrevious dataRange now vm =
     dateRange (updateDateRange dataRange now (navigatePrevious vm))"

text \<open>The dataset span and the navigation states of the boundary scenario.\<close>

definition scenario_span :: date_range where
  "scenario_span = \<lparr>range_start = ymd 2020 1 1, range_end = ymd 2024 6 1\<rparr>"

definition scenario_state :: "Date \<Rightarrow> ViewModeState" where
  "scenario_state center =
     \<lparr>currentMode = Year1, centerDate = center,
      dateRange = \<lparr>range_start = subMonths center 6, range_end = addMonths center 6\<rparr>,
      isLoading = False,
      cacheStatus = \<lparr>isCached = False, isPreloading = False, cachedRanges = []\<rparr>\<rparr>"

section \<open>Data orchestrator (useViewModeData)\<close>

subsection \<open>Date setters\<close>

text \<open>
  \<^verbatim>\<open>setMonth\<close> and \<^verbatim>\<open>setFullYear\<close> of a \<^verbatim>\<open>Date\<close>: a month outside 0 to 11
  carries into the year, and a day of the month that the new month does not have
  carries into the next month (January 31 set to February becomes March 3, or
  March 2 in a leap year).
\<close>

definition setMonth :: "Date \<Rightarrow> int \<Rightarrow> Date" where
  "setMonth d m =
     (let y = getFullYear d + m div 12;
          mo = nat (m mod 12);
          dim = days_in_month y mo
      in if getDate d > dim
         then d\<lparr>getFullYear := y, getMonth := mo + 1, getDate := getDate d - dim\<rparr>
         else d\<lparr>getFullYear := y, getMonth := mo\<rparr>)"

definition setFullYear :: "Date \<Rightarrow> int \<Rightarrow> Date" where
  "setFullYear d y =
     (let dim = days_in_month y (getMonth d)
      in if getDate d > dim
         then d\<lparr>getFullYear := y, getMonth := getMonth d + 1, getDate := getDate d - dim\<rparr>
         else d\<lparr>getFullYear := y\<rparr>)"

subsection \<open>State of the hook\<close>

text \<open>
  The segment that the hook stores and reads (\<^verbatim>\<open>CachedDataSegment\<close>); its dates
  are ISO strings. In \<open>hook_metadata\<close> a \<^verbatim>\<open>new Date(s)\<close> of an ISO string \<open>s\<close> is
  kept as \<open>s\<close>.
\<close>

record 'r CachedDataSegment =
  id_seg :: string
  wellNumber_seg :: string
  samplingRate_seg :: resolution
  startDate_seg :: string
  endDate_seg :: string
  data_seg :: "'r list"
  cachedAt :: int
  lastAccessed :: int
  sizeBytes :: nat

record hook_cache_status =
  hit :: bool
  preloaded :: bool
  cachedSegments :: nat

record hook_metadata =
  totalPoints :: nat
  dateRange_md :: "(string \<times> string) option"
  cacheStatus_md :: hook_cache_status

record 'r DataState =
  data_st :: "'r list"
  isLoading_st :: bool
  error_st :: "string option"
  cacheHit :: bool
  metadata :: hook_metadata

definition initial_DataState :: "'r DataState" where
  "initial_DataState =
     \<lparr>data_st = [], isLoading_st = False, error_st = None, cacheHit = False,
      metadata = \<lparr>totalPoints = 0, dateRange_md = None,
                   cacheStatus_md = \<lparr>hit = False, preloaded = False, cachedSegments = 0\<rparr>\<rparr>\<rparr>"

text \<open>
  A call of \<^verbatim>\<open>fetch\<close> on the readings endpoint, with the place of the call in the
  source: the primary fetch of \<^verbatim>\<open>loadData\<close> or the background fetch of
  \<^verbatim>\<open>preloadAdjacentRanges\<close>.
\<close>

datatype fetch_site = PrimaryFetch | PreloadFetch

record readings_request =
  call_site :: fetch_site
  req_databaseId :: string
  req_wellNumber :: string
  req_samplingRate :: resolution
  req_startDate :: string
  req_endDate :: string

text \<open>
  What the hook acts on: its own state, the store of the cache, the calls of the
  readings endpoint made so far, and the messages passed to \<^verbatim>\<open>onError\<close>.
\<close>

record 'r hook_world =
  state :: "'r DataState"
  cache :: "'r CachedDataSegment object_store"
  fetches :: "readings_request list"
  reported :: "string list"

text \<open>
  What one invocation of \<^verbatim>\<open>loadData\<close> closes over: the properties of the hook
  and the navigation state at the time.
\<close>

record hook_props =
  databaseId :: string
  wellNumber :: string
  viewMode :: ViewModeState

text \<open>
  The hook calls \<^verbatim>\<open>generateCacheKey\<close> and \<^verbatim>\<open>put\<close> on the cache; the sources
  hold no definition of them, so they are parameters of the model.
\<close>

record 'r cache_methods =
  generateCacheKey :: "string \<Rightarrow> resolution \<Rightarrow> string \<Rightarrow> string \<Rightarrow> string"
  put :: "int \<Rightarrow> 'r CachedDataSegment \<Rightarrow> 'r CachedDataSegment object_store
          \<Rightarrow> 'r CachedDataSegment object_store"

subsection \<open>Preloading\<close>

text \<open>
  One neighbouring range: skipped when the cache has it, fetched otherwise. The call
  of the endpoint is recorded; the answer, which the source puts into the cache when
  it arrives, is no part of this step.
\<close>

definition preloadRange ::
  "'r cache_methods \<Rightarrow> int \<Rightarrow> hook_props \<Rightarrow> resolution \<Rightarrow> Date \<Rightarrow> Date
   \<Rightarrow> 'r hook_world \<Rightarrow> 'r hook_world" where
  "preloadRange api now props rate offsetStart offsetEnd w =
     (let cacheKey = generateCacheKey api (wellNumber props) rate
                       (toISOString offsetStart) (toISOString offsetEnd);
          (existing, cache') = get_idb now cacheKey (cache w)
      in if existing \<noteq> None then w\<lparr>cache := cache'\<rparr>
         else w\<lparr>cache := cache',
                fetches := fetches w @
                  [\<lparr>call_site = PreloadFetch, req_databaseId = databaseId props,
                    req_wellNumber = wellNumber props, req_samplingRate = rate,
                    req_startDate = toISOString offsetStart,
                    req_endDate = toISOString offsetEnd\<rparr>]\<rparr>)"

text \<open>The body of the loop over the offsets of the preload strategy.\<close>

definition preloadOffset ::
  "'r cache_methods \<Rightarrow> int \<Rightarrow> hook_props \<Rightarrow> resolution \<Rightarrow> int
   \<Rightarrow> 'r hook_world \<Rightarrow> 'r hook_world" where
  "preloadOffset api now props rate offset w =
     (if offset = 0 then w
      else
        (let dr = dateRange (viewMode props);
             step = navigationStep (VIEW_MODES (currentMode (viewMode props)));
             monthsToAdd = (if snd step = Month then fst step * offset else 0);
             yearsToAdd = (if snd step = Year then fst step * offset else 0)
         in if monthsToAdd \<noteq> 0 then
              preloadRange api now props rate
                (setMonth (range_start dr) (int (getMonth (range_start dr)) + monthsToAdd))
                (setMonth (range_end dr) (int (getMonth (range_end dr)) + monthsToAdd)) w
            else if yearsToAdd \<noteq> 0 then
              preloadRange api now props rate
                (setFullYear (range_start dr) (getFullYear (range_start dr) + yearsToAdd))
                (setFullYear (range_end dr) (getFullYear (range_end dr) + yearsToAdd)) w
            else w))"

definition preloadAdjacentRanges ::
  "'r cache_methods \<Rightarrow> int \<Rightarrow> hook_props \<Rightarrow> resolution \<Rightarrow> 'r hook_world \<Rightarrow> 'r hook_world" where
  "preloadAdjacentRanges api now props rate w =
     (if currentMode (viewMode props) = Full then w
      else fold (preloadOffset api now props rate)
             (preloadStrategy (VIEW_MODES (currentMode (viewMode props)))) w)"

subsection \<open>loadData\<close>

text \<open>
  The sampling rate of an invocation: the rate of the mode, or for the adaptive
  policy the rate computed from the answer of the range endpoint.
\<close>

definition resolveSamplingRate ::
  "(Date \<Rightarrow> Date \<Rightarrow> int) \<Rightarrow> hook_props \<Rightarrow> Date range_response \<Rightarrow> resolution" where
  "resolveSamplingRate differenceInDays props rangeResponse =
     (let config = VIEW_MODES (currentMode (viewMode props))
      in case samplingRate config of
           Adaptive \<Rightarrow> calculateFullViewSampling differenceInDays config rangeResponse
         | Fixed r \<Rightarrow> r)"

definition cacheKeyOf :: "'r cache_methods \<Rightarrow> hook_props \<Rightarrow> resolution \<Rightarrow> string" where
  "cacheKeyOf api props rate =
     generateCacheKey api (wellNumber props) rate
       (toISOString (range_start (dateRange (viewMode props))))
       (toISOString (range_end (dateRange (viewMode props))))"

text \<open>
  \<^verbatim>\<open>loadData\<close> from its call to the point where it returns (cache hit) or waits
  for the answer of the primary fetch (cache miss). On a hit the preloading it
  starts is run to its end here.
\<close>

definition loadData ::
  "'r cache_methods \<Rightarrow> (Date \<Rightarrow> Date \<Rightarrow> int) \<Rightarrow> int \<Rightarrow> hook_props \<Rightarrow> Date range_response
   \<Rightarrow> 'r hook_world \<Rightarrow> 'r hook_world" where
  "loadData api differenceInDays now props rangeResponse w =
     (let w1 = w\<lparr>state := (state w)\<lparr>isLoading_st := True, error_st := None\<rparr>\<rparr>;
          startDate = toISOString (range_start (dateRange (viewMode props)));
          endDate = toISOString (range_end (dateRange (viewMode props)));
          rate = resolveSamplingRate differenceInDays props rangeResponse;
          cacheKey = generateCacheKey api (wellNumber props) rate startDate endDate;
          (cachedSegment, cache') = get_idb now cacheKey (cache w1)
      in case cachedSegment of
           Some seg \<Rightarrow>
             preloadAdjacentRanges api now props rate
               (w1\<lparr>cache := cache',
                   state := (state w1)\<lparr>
                     data_st := data_seg seg,
                     isLoading_st := False,
                     cacheHit := True,
                     metadata :=
                       \<lparr>totalPoints = length (data_seg seg),
                        dateRange_md = Some (startDate_seg seg, endDate_seg seg),
                        cacheStatus_md = \<lparr>hit = True, preloaded = False, cachedSegments = 1\<rparr>\<rparr>\<rparr>\<rparr>)
         | None \<Rightarrow>
             w1\<lparr>cache := cache',
                fetches := fetches w1 @
                  [\<lparr>call_site = PrimaryFetch, req_databaseId = databaseId props,
                    req_wellNumber = wellNumber props, req_samplingRate = rate,
                    req_startDate = startDate, req_endDate = endDate\<rparr>]\<rparr>)"

text \<open>
  The answer of the primary fetch: the readings, or the message of the error that
  the \<^verbatim>\<open>catch\<close> block receives (a network error or timeout, a response that is not
  ok, a body without \<^verbatim>\<open>success\<close> or \<^verbatim>\<open>data\<close>).
\<close>

datatype 'r fetch_response = ResponseData "'r list" | ResponseError string

text \<open>
  The rest of \<^verbatim>\<open>loadData\<close> after a cache miss, run when the primary fetch of
  that invocation is answered. It compares nothing with the navigation state of the
  moment: it has only what the invocation closed over.
\<close>

definition loadData_onResponse ::
  "'r cache_methods \<Rightarrow> (Date \<Rightarrow> Date \<Rightarrow> int) \<Rightarrow> int \<Rightarrow> hook_props \<Rightarrow> Date range_response
   \<Rightarrow> 'r fetch_response \<Rightarrow> 'r hook_world \<Rightarrow> 'r hook_world" where
  "loadData_onResponse api differenceInDays now props rangeResponse response w =
     (let startDate = toISOString (range_start (dateRange (viewMode props)));
          endDate = toISOString (range_end (dateRange (viewMode props)));
          rate = resolveSamplingRate differenceInDays props rangeResponse;
          cacheKey = generateCacheKey api (wellNumber props) rate startDate endDate
      in case response of
           ResponseError errorMessage \<Rightarrow>
             w\<lparr>state := (state w)\<lparr>isLoading_st := False, error_st := Some errorMessage\<rparr>,
               reported := reported w @ [errorMessage]\<rparr>
         | ResponseData d \<Rightarrow>
             (let segment = \<lparr>id_seg = cacheKey, wellNumber_seg = wellNumber props,
                             samplingRate_seg = rate, startDate_seg = startDate,
                             endDate_seg = endDate, data_seg = d, cachedAt = now,
                             lastAccessed = now, sizeBytes = 0\<rparr>;
                  w1 = w\<lparr>cache := put api now segment (cache w)\<rparr>;
                  w2 = w1\<lparr>state := (state w1)\<lparr>
                          data_st := d,
                          isLoading_st := False,
                          cacheHit := False,
                          metadata :=
                            \<lparr>totalPoints = length d,
                             dateRange_md = Some (startDate, endDate),
                             cacheStatus_md = \<lparr>hit = False, preloaded = False, cachedSegments = 1\<rparr>\<rparr>\<rparr>\<rparr>
              in preloadAdjacentRanges api now props rate w2))"

text \<open>The calls of the readings endpoint made by the primary fetch of \<^verbatim>\<open>loadData\<close>.\<close>

definition primaryFetches :: "'r hook_world \<Rightarrow> readings_request list" where
  "primaryFetches w = filter (\<lambda>q. call_site q = PrimaryFetch) (fetches w)"

subsection \<open>Example instances\<close>

text \<open>The tokens of the sampling rates, as \<^verbatim>\<open>calculateFullViewSampling\<close> returns them.\<close>

fun rate_token :: "resolution \<Rightarrow> string" where
  "rate_token Rate15min = ''15min''"
| "rate_token Rate30min = ''30min''"
| "rate_token Rate1hour = ''1hour''"
| "rate_token Rate3hour = ''3hour''"
| "rate_token Rate6hour = ''6hour''"
| "rate_token Rate12hour = ''12hour''"
| "rate_token Rate1day = ''1day''"
| "rate_token Rate2day = ''2day''"
| "rate_token Rate1week = ''1week''"

text \<open>
  Modelled from the spec: \<^verbatim>\<open>generateCacheKey\<close> and \<^verbatim>\<open>put\<close> of the cache are
  missing from the sources. The key is "a deterministic concatenation of the four
  fields with fixed field ordering and separators"; \<^verbatim>\<open>put\<close> stores the segment
  under its id "with a fixed time-to-live" of one hour. The size of the segment and
  the storage budget are left out here. This instance serves to evaluate the hook on
  examples; the theorems on the hook hold for every instance.
\<close>

definition example_methods :: "'r cache_methods" where
  "example_methods =
     \<lparr>generateCacheKey = (\<lambda>well rate startDate endDate.
        well @ ''|'' @ rate_token rate @ ''|'' @ startDate @ ''|'' @ endDate),
      put = (\<lambda>now segment s. set_idb now (id_seg segment) segment 3600000 s)\<rparr>"

text \<open>
  The navigation state of the mode 1month centered in a month, with its derived
  range, and the properties of a hook on the well W1.
\<close>

definition month_view :: "Date \<Rightarrow> ViewModeState" where
  "month_view center =
     \<lparr>currentMode = Month1, centerDate = center,
      dateRange = \<lparr>range_start = startOfMonth center, range_end = endOfMonth center\<rparr>,
      isLoading = False,
      cacheStatus = \<lparr>isCached = False, isPreloading = False, cachedRanges = []\<rparr>\<rparr>"

definition example_props :: "ViewModeState \<Rightarrow> hook_props" where
  "example_props vm = \<lparr>databaseId = ''db'', wellNumber = ''W1'', viewMode = vm\<rparr>"

definition empty_world :: "'r hook_world" where
  "empty_world = \<lparr>state = initial_DataState, cache = [], fetches = [], reported = []\<rparr>"

text \<open>
  The hook on January 2023 and on February 2023, a segment of two readings for
  January, and the state of affairs in which the cache holds just that segment.
\<close>

definition january_props :: hook_props where
  "january_props = example_props (month_view (ymd 2023 1 15))"

definition february_props :: hook_props where
  "february_props = example_props (month_view (ymd 2023 2 15))"

definition january_segment :: "nat CachedDataSegment" where
  "january_segment =
     \<lparr>id_seg = ''W1|15min|2023-01-01T00:00:00.000Z|2023-01-31T23:59:59.999Z'',
      wellNumber_seg = ''W1'', samplingRate_seg = Rate15min,
      startDate_seg = ''2023-01-01T00:00:00.000Z'', endDate_seg = ''2023-01-31T23:59:59.999Z'',
      data_seg = [101, 102], cachedAt = 0, lastAccessed = 0, sizeBytes = 0\<rparr>"

definition january_cached :: "nat hook_world" where
  "january_cached = empty_world\<lparr>cache := put example_methods 0 january_segment []\<rparr>"

text \<open>
  \<^verbatim>\<open>differenceInDays\<close> of date-fns in a zone of fixed offset: the number of full
  days from the second date to the first, rounded towards zero.
\<close>

definition differenceInDays :: "Date \<Rightarrow> Date \<Rightarrow> int" where
  "differenceInDays laterDate earlierDate =
     (let diff = getTime laterDate - getTime earlierDate
      in if 0 \<le> diff then diff div 86400000 else - ((- diff) div 86400000))"

text \<open>
  The hook in the full mode on the range from 2023-01-01 to 2023-02-01, the answer of
  the range endpoint for a well with readings since 2010, and a cache that holds the
  segment of that range at the resolution of one day.
\<close>

definition full_props :: hook_props where
  "full_props =
     example_props
       \<lparr>currentMode = Full, centerDate = ymd 2023 1 15,
        dateRange = \<lparr>range_start = ymd 2023 1 1, range_end = ymd 2023 2 1\<rparr>,
        isLoading = False,
        cacheStatus = \<lparr>isCached = False, isPreloading = False, cachedRanges = []\<rparr>\<rparr>"

definition full_range_response :: "Date range_response" where
  "full_range_response = RangeData (ymd 2010 1 1) (ymd 2023 2 1)"

definition full_segment :: "nat CachedDataSegment" where
  "full_segment =
     \<lparr>id_seg = ''W1|1day|2023-01-01T00:00:00.000Z|2023-02-01T00:00:00.000Z'',
      wellNumber_seg = ''W1'', samplingRate_seg = Rate1day,
      startDate_seg = ''2023-01-01T00:00:00.000Z'', endDate_seg = ''2023-02-01T00:00:00.000Z'',
      data_seg = [301, 302, 303], cachedAt = 0, lastAccessed = 0, sizeBytes = 0\<rparr>"

definition full_cached :: "nat hook_world" where
  "full_cached = empty_world\<lparr>cache := put example_methods 0 full_segment []\<rparr>"

text \<open>
  Two navigations in a row, to January and then to February, both missing the cache;
  the answer for February arrives first, the answer for January after it.
\<close>

definition race_issued :: "nat hook_world" where
  "race_issued =
     loadData example_methods differenceInDays 1 february_props RangeFailed
       (loadData example_methods differenceInDays 0 january_props RangeFailed empty_world)"

definition race_february_answered :: "nat hook_world" where
  "race_february_answered =
     loadData_onResponse example_methods differenceInDays 2 february_props RangeFailed
       (ResponseData [201, 202]) race_issued"

definition race_january_answered :: "nat hook_world" where
  "race_january_answered =
     loadData_onResponse example_methods differenceInDays 3 january_props RangeFailed
       (ResponseData [101, 102]) race_february_answered"

section \<open>Properties of the resolution resolver\<close>

lemma js_le_div_ceil:
  "b \<noteq> 0 \<Longrightarrow> js_le (js_div_ceil a b) k \<longleftrightarrow> real_of_int a / real_of_int b \<le> real_of_int k"
proof -
  assume "b \<noteq> 0"
  then have "js_le (js_div_ceil a b) k \<longleftrightarrow> \<lceil>real_of_int a / real_of_int b\<rceil> \<le> k"
    by (simp add: js_div_ceil_def ceiling_divide_eq_div)
  then show ?thesis
    by (simp add: ceiling_le_iff)
qed

lemma standardInterval_first_rung:
  assumes "b \<noteq> 0"
  shows "standardInterval (js_div_ceil a b) = first_rung_at_least (real_of_int a / real_of_int b)"
  unfolding standardInterval_def first_rung_at_least_def ladder_def
  using assms by (simp add: js_le_div_ceil)

text \<open>
  Claim C6. With the adaptive policy and a range answer from the endpoint, the
  resolver computes \<open>totalMinutes = daysBetween * 1440\<close>, divides it by the mode's
  \<open>targetPoints\<close>, and returns the first rung of the ladder 15min, 30min, 1hour,
  3hour, 6hour, 12hour, 1day, 2day, 1week that is at least that quotient, and 1week
  when no rung is.
\<close>

theorem calculateFullViewSampling_first_rung:
  assumes "targetPoints config \<noteq> 0"
  shows "calculateFullViewSampling daysBetween config (RangeData startDate endDate) =
         first_rung_at_least
           (real_of_int (daysBetween endDate startDate * 1440)
              / real_of_int (targetPoints config))"
proof -
  have "calculateFullViewSampling daysBetween config (RangeData startDate endDate) =
        standardInterval (js_div_ceil (daysBetween endDate startDate * 1440) (targetPoints config))"
    by (simp add: calculateFullViewSampling_def mult.commute)
  then show ?thesis
    by (simp only: standardInterval_first_rung [OF assms])
qed

theorem calculateFullViewSampling_first_rung_witness:
  "targetPoints (VIEW_MODES Full) \<noteq> 0 \<and>
   calculateFullViewSampling (\<lambda>e s. e - s) (VIEW_MODES Full) (RangeData (0::int) 3650) =
     first_rung_at_least (real_of_int ((3650 - 0) * 1440) / real_of_int (targetPoints (VIEW_MODES Full))) \<and>
   calculateFullViewSampling (\<lambda>e s. e - s) (VIEW_MODES Full) (RangeData (0::int) 3650) = Rate1day"
proof -
  have h: "targetPoints (VIEW_MODES Full) \<noteq> 0" by simp
  have v: "calculateFullViewSampling (\<lambda>e s. e - s) (VIEW_MODES Full) (RangeData (0::int) 3650) = Rate1day"
    by (simp add: calculateFullViewSampling_def js_div_ceil_def standardInterval_def)
  show ?thesis
    using h v
      calculateFullViewSampling_first_rung [OF h, of "\<lambda>e s. e - s" "0::int" "3650"]
    by simp
qed

lemma js_div_ceil_mono:
  assumes "0 \<le> b" and "a1 \<le> a2" and "js_le (js_div_ceil a2 b) k"
  shows "js_le (js_div_ceil a1 b) k"
proof (cases "b = 0")
  case True
  with assms show ?thesis
    by (auto simp: js_div_ceil_def split: if_splits)
next
  case False
  with assms have "0 < b" by simp
  from \<open>a1 \<le> a2\<close> have "- a2 \<le> - a1" by simp
  then have "(- a2) div b \<le> (- a1) div b"
    using \<open>0 < b\<close> by (rule zdiv_mono1)
  with assms False show ?thesis
    by (simp add: js_div_ceil_def)
qed

lemma standardInterval_mono:
  assumes "0 \<le> b" and "a1 \<le> a2"
  shows "ladder_position (standardInterval (js_div_ceil a1 b))
         \<le> ladder_position (standardInterval (js_div_ceil a2 b))"
  using js_div_ceil_mono [OF assms]
  by (simp add: standardInterval_def)

text \<open>
  Claim C7. For a fixed \<open>targetPoints\<close>, the adaptive resolution is monotone in the
  span of the data: a span of at least as many days never resolves to a finer
  resolution (an earlier rung of the ladder).
\<close>

theorem adaptive_resolution_monotone:
  assumes "0 \<le> targetPoints config"
    and "daysBetween end1 start1 \<le> daysBetween end2 start2"
  shows "ladder_position (calculateFullViewSampling daysBetween config (RangeData start1 end1))
         \<le> ladder_position (calculateFullViewSampling daysBetween config (RangeData start2 end2))"
proof -
  from assms(2)
  have "daysBetween end1 start1 * 24 * 60 \<le> daysBetween end2 start2 * 24 * 60"
    by simp
  from standardInterval_mono [OF assms(1) this] show ?thesis
    by (simp add: calculateFullViewSampling_def)
qed

theorem adaptive_resolution_monotone_witness:
  "0 \<le> targetPoints (VIEW_MODES Full) \<and> (400 - 0 \<le> 3650 - (0::int)) \<and>
   ladder_position (calculateFullViewSampling (\<lambda>e s. e - s) (VIEW_MODES Full) (RangeData (0::int) 400))
     \<le> ladder_position (calculateFullViewSampling (\<lambda>e s. e - s) (VIEW_MODES Full) (RangeData (0::int) 3650)) \<and>
   calculateFullViewSampling (\<lambda>e s. e - s) (VIEW_MODES Full) (RangeData (0::int) 400) = Rate3hour \<and>
   calculateFullViewSampling (\<lambda>e s. e - s) (VIEW_MODES Full) (RangeData (0::int) 3650) = Rate1day"
proof -
  have h1: "0 \<le> targetPoints (VIEW_MODES Full)" by simp
  have h2: "(\<lambda>e s. e - s) (400::int) 0 \<le> (\<lambda>e s. e - s) (3650::int) 0" by simp
  have v1: "calculateFullViewSampling (\<lambda>e s. e - s) (VIEW_MODES Full) (RangeData (0::int) 400) = Rate3hour"
    by (simp add: calculateFullViewSampling_def js_div_ceil_def standardInterval_def)
  have v2: "calculateFullViewSampling (\<lambda>e s. e - s) (VIEW_MODES Full) (RangeData (0::int) 3650) = Rate1day"
    by (simp add: calculateFullViewSampling_def js_div_ceil_def standardInterval_def)
  show ?thesis
    using h1 h2 v1 v2
      adaptive_resolution_monotone [of "VIEW_MODES Full" "\<lambda>e s. e - s" "400::int" 0 3650 0]
    by simp
qed

section \<open>Properties of the key-value store\<close>

lemma map_of_store_put: "map_of (store_put k e s) = (map_of s)(k \<mapsto> e)"
  by (induction s) (auto simp: fun_eq_iff)

lemma map_of_delete_idb: "map_of (delete_idb k s) = (map_of s)(k := None)"
  by (induction s) (auto simp: delete_idb_def fun_eq_iff)

lemma map_of_fold_delete_idb:
  "map_of (fold delete_idb ks s) k = (if k \<in> set ks then None else map_of s k)"
  by (induction ks arbitrary: s) (auto simp: map_of_delete_idb)

lemma map_of_set_idb:
  "map_of (set_idb now k d t s) = (map_of s)(k \<mapsto> \<lparr>key = k, data = d, timestamp = now, ttl = t\<rparr>)"
  by (simp add: set_idb_def map_of_store_put)

text \<open>
  Claim C4. An entry stored under a key with time-to-live \<open>ttl\<close> at \<open>timestamp\<close> is
  returned by \<open>get\<close> while \<open>now \<le> timestamp + ttl\<close>, and the store is left as it is;
  once \<open>now > timestamp + ttl\<close>, \<open>get\<close> returns absent and the entry is deleted, the
  other keys keeping their entries.
\<close>

theorem get_idb_lazy_expiration:
  assumes "map_of s k = Some e"
  shows "(now \<le> timestamp e + ttl e \<longrightarrow> get_idb now k s = (Some (data e), s)) \<and>
         (now > timestamp e + ttl e \<longrightarrow>
            fst (get_idb now k s) = None \<and>
            map_of (snd (get_idb now k s)) = (map_of s)(k := None))"
  using assms by (simp add: get_idb_def map_of_delete_idb)

theorem get_idb_lazy_expiration_witness:
  "map_of (set_idb 1000 ''k'' [7::nat] 500 []) ''k''
     = Some \<lparr>key = ''k'', data = [7], timestamp = 1000, ttl = 500\<rparr> \<and>
   get_idb 1500 ''k'' (set_idb 1000 ''k'' [7::nat] 500 [])
     = (Some [7], set_idb 1000 ''k'' [7] 500 []) \<and>
   fst (get_idb 1501 ''k'' (set_idb 1000 ''k'' [7::nat] 500 [])) = None \<and>
   map_of (snd (get_idb 1501 ''k'' (set_idb 1000 ''k'' [7::nat] 500 []))) ''k'' = None"
proof -
  let ?s = "set_idb 1000 ''k'' [7::nat] 500 []"
  let ?e = "\<lparr>key = ''k'', data = [7::nat], timestamp = 1000, ttl = 500\<rparr>"
  have h: "map_of ?s ''k'' = Some ?e"
    by (simp add: set_idb_def)
  show ?thesis
    using h get_idb_lazy_expiration [OF h, of 1500] get_idb_lazy_expiration [OF h, of 1501]
    by simp
qed

section \<open>Properties of the segment cache\<close>

text \<open>
  What a put does: \<open>cacheTimeSeriesData\<close> stores the entry under its key, with the
  time of the call and the given time-to-live, in place of an entry the key had;
  every other key keeps its entry, whatever the sizes. The statistics record the
  number of entries.
\<close>

lemma cacheTimeSeriesData_stores:
  "map_of (db (cacheTimeSeriesData now k d t c))
     = (map_of (db c))(k \<mapsto> \<lparr>key = k, data = d, timestamp = now, ttl = t\<rparr>) \<and>
   cacheSize (stats (cacheTimeSeriesData now k d t c))
     = size_idb (db (cacheTimeSeriesData now k d t c))"
  by (simp add: cacheTimeSeriesData_def Let_def map_of_set_idb)


lemma prefix_dataRangeKey: "prefix (w @ ''-'') (dataRangeKey w startDate endDate res)"
  by (simp add: dataRangeKey_def)

lemma map_of_invalidateWellData:
  "map_of (db (invalidateWellData w c)) k
     = (if prefix (w @ ''-'') k then None else map_of (db c) k)"
proof -
  have "map_of (db c) k = None" if "k \<notin> fst ` set (db c)"
    using that by (simp add: map_of_eq_None_iff)
  then show ?thesis
    by (auto simp: invalidateWellData_def Let_def getAllKeys_def map_of_fold_delete_idb)
qed

text \<open>
  Claim C9, as amended. \<open>invalidateWellData\<close> removes every segment that was cached
  for the well, whatever its resolution and range, leaves every entry whose key does
  not start with the well number and a dash as it is, and records the number of
  entries that remain; it returns no count.
\<close>

theorem invalidateWellData_removes_well:
  "map_of (db (invalidateWellData w c)) (dataRangeKey w startDate endDate res) = None \<and>
   (\<not> prefix (w @ ''-'') k \<longrightarrow> map_of (db (invalidateWellData w c)) k = map_of (db c) k) \<and>
   cacheSize (stats (invalidateWellData w c)) = size_idb (db (invalidateWellData w c))"
proof -
  have "cacheSize (stats (invalidateWellData w c)) = size_idb (db (invalidateWellData w c))"
    by (simp add: invalidateWellData_def Let_def)
  then show ?thesis
    by (simp add: map_of_invalidateWellData prefix_dataRangeKey)
qed

theorem invalidateWellData_removes_well_witness:
  "map_of (db (invalidateWellData ''W''
      (cacheDataRange 0 ''X'' (ymd 2024 1 1) (ymd 2024 2 1) [2::nat] Medium 3600000
        (cacheDataRange 0 ''W'' (ymd 2024 1 1) (ymd 2024 2 1) [1] Medium 3600000
          new_SmartTimeSeriesCache))))
     (dataRangeKey ''W'' (ymd 2024 1 1) (ymd 2024 2 1) Medium) = None \<and>
   \<not> prefix (''W'' @ ''-'') (dataRangeKey ''X'' (ymd 2024 1 1) (ymd 2024 2 1) Medium) \<and>
   map_of (db (invalidateWellData ''W''
      (cacheDataRange 0 ''X'' (ymd 2024 1 1) (ymd 2024 2 1) [2::nat] Medium 3600000
        (cacheDataRange 0 ''W'' (ymd 2024 1 1) (ymd 2024 2 1) [1] Medium 3600000
          new_SmartTimeSeriesCache))))
     (dataRangeKey ''X'' (ymd 2024 1 1) (ymd 2024 2 1) Medium)
   = Some \<lparr>key = dataRangeKey ''X'' (ymd 2024 1 1) (ymd 2024 2 1) Medium, data = [2],
            timestamp = 0, ttl = 3600000\<rparr>"
proof -
  let ?c = "cacheDataRange 0 ''X'' (ymd 2024 1 1) (ymd 2024 2 1) [2::nat] Medium 3600000
        (cacheDataRange 0 ''W'' (ymd 2024 1 1) (ymd 2024 2 1) [1] Medium 3600000
          new_SmartTimeSeriesCache)"
  let ?kx = "dataRangeKey ''X'' (ymd 2024 1 1) (ymd 2024 2 1) Medium"
  have h: "\<not> prefix (''W'' @ ''-'') ?kx"
    by (simp add: dataRangeKey_def)
  have v: "map_of (db ?c) ?kx
             = Some \<lparr>key = ?kx, data = [2], timestamp = 0, ttl = 3600000\<rparr>"
    by (simp add: cacheDataRange_def cacheTimeSeriesData_def Let_def map_of_set_idb)
  show ?thesis
    using h v
      invalidateWellData_removes_well
        [of "''W''" ?c "ymd 2024 1 1" "ymd 2024 2 1" Medium ?kx]
    by simp
qed

text \<open>
  The claim as stated fails. A segment cached for the well \<open>W-1\<close> is removed when
  the well \<open>W\<close> is invalidated, although it belongs to another well; and the one
  number the operation records is the count of the two entries that remain, not of
  the one it removed.
\<close>

theorem invalidateWellData_removes_other_well:
  "map_of (db
      (cacheDataRange 0 ''Z'' (ymd 2024 1 1) (ymd 2024 2 1) [3::nat] Medium 3600000
        (cacheDataRange 0 ''X'' (ymd 2024 1 1) (ymd 2024 2 1) [2] Medium 3600000
          (cacheDataRange 0 ''W-1'' (ymd 2024 1 1) (ymd 2024 2 1) [1] Medium 3600000
            new_SmartTimeSeriesCache))))
     (dataRangeKey ''W-1'' (ymd 2024 1 1) (ymd 2024 2 1) Medium)
   = Some \<lparr>key = dataRangeKey ''W-1'' (ymd 2024 1 1) (ymd 2024 2 1) Medium, data = [1],
            timestamp = 0, ttl = 3600000\<rparr> \<and>
   ''W-1'' \<noteq> ''W'' \<and>
   map_of (db (invalidateWellData ''W''
      (cacheDataRange 0 ''Z'' (ymd 2024 1 1) (ymd 2024 2 1) [3::nat] Medium 3600000
        (cacheDataRange 0 ''X'' (ymd 2024 1 1) (ymd 2024 2 1) [2] Medium 3600000
          (cacheDataRange 0 ''W-1'' (ymd 2024 1 1) (ymd 2024 2 1) [1] Medium 3600000
            new_SmartTimeSeriesCache)))))
     (dataRangeKey ''W-1'' (ymd 2024 1 1) (ymd 2024 2 1) Medium) = None \<and>
   cacheSize (stats (invalidateWellData ''W''
      (cacheDataRange 0 ''Z'' (ymd 2024 1 1) (ymd 2024 2 1) [3::nat] Medium 3600000
        (cacheDataRange 0 ''X'' (ymd 2024 1 1) (ymd 2024 2 1) [2] Medium 3600000
          (cacheDataRange 0 ''W-1'' (ymd 2024 1 1) (ymd 2024 2 1) [1] Medium 3600000
            new_SmartTimeSeriesCache))))) = 2"
proof -
  let ?c = "cacheDataRange 0 ''Z'' (ymd 2024 1 1) (ymd 2024 2 1) [3::nat] Medium 3600000
        (cacheDataRange 0 ''X'' (ymd 2024 1 1) (ymd 2024 2 1) [2] Medium 3600000
          (cacheDataRange 0 ''W-1'' (ymd 2024 1 1) (ymd 2024 2 1) [1] Medium 3600000
            new_SmartTimeSeriesCache))"
  let ?k = "dataRangeKey ''W-1'' (ymd 2024 1 1) (ymd 2024 2 1) Medium"
  have kx: "dataRangeKey ''X'' (ymd 2024 1 1) (ymd 2024 2 1) Medium \<noteq> ?k"
    and kz: "dataRangeKey ''Z'' (ymd 2024 1 1) (ymd 2024 2 1) Medium \<noteq> ?k"
    and xz: "dataRangeKey ''Z'' (ymd 2024 1 1) (ymd 2024 2 1) Medium
               \<noteq> dataRangeKey ''X'' (ymd 2024 1 1) (ymd 2024 2 1) Medium"
    by (simp_all add: dataRangeKey_def)
  have px: "\<not> prefix ''W-'' (dataRangeKey ''X'' (ymd 2024 1 1) (ymd 2024 2 1) Medium)"
    and pz: "\<not> prefix ''W-'' (dataRangeKey ''Z'' (ymd 2024 1 1) (ymd 2024 2 1) Medium)"
    and pw: "prefix ''W-'' ?k"
    by (simp_all add: dataRangeKey_def)
  have before: "map_of (db ?c) ?k = Some \<lparr>key = ?k, data = [1], timestamp = 0, ttl = 3600000\<rparr>"
    using kx kz
    by (simp add: cacheDataRange_def cacheTimeSeriesData_def Let_def map_of_set_idb
        new_SmartTimeSeriesCache_def)
  have after: "map_of (db (invalidateWellData ''W'' ?c)) ?k = None"
    using pw by (simp add: map_of_invalidateWellData)
  have "db ?c = [(?k, \<lparr>key = ?k, data = [1], timestamp = 0, ttl = 3600000\<rparr>),
                 (dataRangeKey ''X'' (ymd 2024 1 1) (ymd 2024 2 1) Medium,
                  \<lparr>key = dataRangeKey ''X'' (ymd 2024 1 1) (ymd 2024 2 1) Medium, data = [2],
                   timestamp = 0, ttl = 3600000\<rparr>),
                 (dataRangeKey ''Z'' (ymd 2024 1 1) (ymd 2024 2 1) Medium,
                  \<lparr>key = dataRangeKey ''Z'' (ymd 2024 1 1) (ymd 2024 2 1) Medium, data = [3],
                   timestamp = 0, ttl = 3600000\<rparr>)]"
    using kx kz xz
    by (simp add: cacheDataRange_def cacheTimeSeriesData_def Let_def set_idb_def
        new_SmartTimeSeriesCache_def)
  then have count: "cacheSize (stats (invalidateWellData ''W'' ?c)) = 2"
    using px pz pw kx kz xz
    by (simp add: invalidateWellData_def Let_def getAllKeys_def size_idb_def delete_idb_def)
  show ?thesis
    using before after count by simp
qed

text \<open>
  The number of digits of a literal, so that a rounding can be evaluated on literals.
\<close>

lemma bit_length_0: "bit_length 0 = 0"
  by (simp add: bit_length.simps)

lemma bit_length_Suc_0: "bit_length (Suc 0) = 1"
  by (subst bit_length.simps) (simp add: bit_length_0)

lemma bit_length_numeral:
  "bit_length 1 = 1"
  "bit_length (numeral (Num.Bit0 k)) = Suc (bit_length (numeral k))"
  "bit_length (numeral (Num.Bit1 k)) = Suc (bit_length (numeral k))"
proof -
  show "bit_length 1 = 1"
    using bit_length_Suc_0 by simp
  show "bit_length (numeral (Num.Bit0 k)) = Suc (bit_length (numeral k))"
    by (subst bit_length.simps) simp
  show "bit_length (numeral (Num.Bit1 k)) = Suc (bit_length (numeral k))"
    by (subst bit_length.simps) simp
qed

lemmas double_eval =
  bit_length_0 bit_length_Suc_0 bit_length_numeral double_of_int_def round_scaled_def
  round_to_double_def round_half_even_def Let_def

text \<open>
  The rounded rates of one hit in two lookups, which is \<open>50\<close>, and of eleven hits in
  twenty lookups, which is the double next above \<open>55\<close>.
\<close>

lemma hitRate_1_of_2:
  "fl_mul (fl_div (double_of_int 1) (double_of_int 2)) (double_of_int 100)
     = Dbl 7036874417766400 (- 47)"
  by (simp add: double_eval)

lemma hitRate_11_of_20:
  "fl_mul (fl_div (double_of_int 11) (double_of_int 20)) (double_of_int 100)
     = Dbl 7740561859543041 (- 47)"
  by (simp add: double_eval)

lemma double_of_int_55: "double_of_int 55 = Dbl 7740561859543040 (- 47)"
  by (simp add: double_eval)

text \<open>What each operation does to the counters and to the hit rate.\<close>

lemma stats_apply_op_other:
  "totalRequests (stats (cacheTimeSeriesData now k d t c)) = totalRequests (stats c)"
  "totalHits (stats (cacheTimeSeriesData now k d t c)) = totalHits (stats c)"
  "hitRate (stats (cacheTimeSeriesData now k d t c)) = hitRate (stats c)"
  "totalRequests (stats (invalidateWellData w c)) = totalRequests (stats c)"
  "totalHits (stats (invalidateWellData w c)) = totalHits (stats c)"
  "hitRate (stats (invalidateWellData w c)) = hitRate (stats c)"
  "totalRequests (stats (snd (getStats c))) = totalRequests (stats c)"
  "totalHits (stats (snd (getStats c))) = totalHits (stats c)"
  "hitRate (stats (snd (getStats c))) = hitRate (stats c)"
  by (simp_all add: cacheTimeSeriesData_def invalidateWellData_def getStats_def Let_def)

lemma stats_clearStats:
  "totalRequests (stats (clearStats c)) = 0"
  "totalHits (stats (clearStats c)) = 0"
  by (simp_all add: clearStats_def)

lemma stats_getTimeSeriesData:
  "totalRequests (stats (snd (getTimeSeriesData now elapsed k c))) = Suc (totalRequests (stats c))"
  "totalHits (stats (snd (getTimeSeriesData now elapsed k c)))
     = totalHits (stats c) + (case fst (get_idb now k (db c)) of None \<Rightarrow> 0 | Some d \<Rightarrow> 1)"
  "hitRate (stats (snd (getTimeSeriesData now elapsed k c)))
     = fl_mul
         (fl_div
            (double_of_int (int (totalHits (stats (snd (getTimeSeriesData now elapsed k c))))))
            (double_of_int (int (totalRequests (stats (snd (getTimeSeriesData now elapsed k c)))))))
         (double_of_int 100)"
  "fst (getTimeSeriesData now elapsed k c) = fst (get_idb now k (db c))"
  "db (snd (getTimeSeriesData now elapsed k c)) = snd (get_idb now k (db c))"
  by (simp_all add: getTimeSeriesData_def Let_def split: prod.splits option.splits)

lemma counters_state_after:
  assumes "totalRequests (stats c) = 0" and "totalHits (stats c) = 0"
  shows "totalRequests (stats (state_after h c)) = lookups_since_reset h \<and>
         totalHits (stats (state_after h c)) = hits_since_reset h c"
proof (induction h)
  case Nil
  from assms show ?case by simp
next
  case (Cons x h)
  then show ?case
    by (cases x) (simp_all add: stats_apply_op_other stats_clearStats stats_getTimeSeriesData)
qed

lemma hits_le_lookups: "hits_since_reset h c \<le> lookups_since_reset h"
proof (induction h)
  case Nil
  show ?case by simp
next
  case (Cons x h)
  then show ?case
    by (cases x) (simp_all split: option.splits)
qed

lemma hitRate_state_after:
  "0 < lookups_since_reset h \<Longrightarrow>
   hitRate (stats (state_after h c))
     = fl_mul
         (fl_div (double_of_int (int (totalHits (stats (state_after h c)))))
            (double_of_int (int (totalRequests (stats (state_after h c))))))
         (double_of_int 100)"
proof (induction h)
  case Nil
  then show ?case by simp
next
  case (Cons x h)
  show ?case
  proof (cases x)
    case (Lookup now elapsed k)
    then show ?thesis
      using stats_getTimeSeriesData(3) [of now elapsed k "state_after h c"] by simp
  next
    case ResetStats
    with Cons.prems show ?thesis by simp
  next
    case (Store now k d t)
    with Cons show ?thesis by (simp add: stats_apply_op_other)
  next
    case (Invalidate w)
    with Cons show ?thesis by (simp add: stats_apply_op_other)
  next
    case ReadStats
    with Cons show ?thesis by (simp add: stats_apply_op_other)
  qed
qed

text \<open>
  Repeating a lookup that leaves the store as it is: each repetition counts as a
  lookup, and as a hit when the store holds a payload under the key.
\<close>

lemma lookups_replicate:
  "lookups_since_reset (replicate n (Lookup now elapsed k) @ h) = n + lookups_since_reset h"
  by (induction n) simp_all

lemma repeated_lookup:
  assumes "get_idb now k (db (state_after h c)) = (r, db (state_after h c))"
  shows "db (state_after (replicate n (Lookup now elapsed k) @ h) c) = db (state_after h c) \<and>
         hits_since_reset (replicate n (Lookup now elapsed k) @ h) c
           = hits_since_reset h c + (case r of None \<Rightarrow> 0 | Some d \<Rightarrow> n)"
proof (induction n)
  case 0
  show ?case by (simp split: option.splits)
next
  case (Suc n)
  then show ?case
    using assms by (simp add: stats_getTimeSeriesData(5) split: option.splits)
qed

lemma eleven_of_twenty_counts:
  "lookups_since_reset eleven_of_twenty = 20"
  "hits_since_reset eleven_of_twenty new_SmartTimeSeriesCache = 11"
proof -
  let ?c = "new_SmartTimeSeriesCache :: nat SmartTimeSeriesCache"
  let ?h0 = "[Store 0 ''a'' [1::nat] 3600000]"
  let ?h1 = "replicate 9 (Lookup 10 1 ''b'') @ ?h0"
  let ?s = "[(''a'', \<lparr>key = ''a'', data = [1::nat], timestamp = 0, ttl = 3600000\<rparr>)]"
  have s0: "db (state_after ?h0 ?c) = ?s"
    by (simp add: cacheTimeSeriesData_def set_idb_def new_SmartTimeSeriesCache_def Let_def)
  have "get_idb 10 ''b'' ?s = (None, ?s)"
    by (simp add: get_idb_def)
  then have miss: "get_idb 10 ''b'' (db (state_after ?h0 ?c)) = (None, db (state_after ?h0 ?c))"
    by (simp only: s0)
  have s1: "db (state_after ?h1 ?c) = ?s"
    using repeated_lookup [OF miss, of 9 1] s0 by simp
  have m1: "hits_since_reset ?h1 ?c = 0"
    using repeated_lookup [OF miss, of 9 1] by simp
  have "get_idb 10 ''a'' ?s = (Some [1], ?s)"
    by (simp add: get_idb_def)
  then have hit: "get_idb 10 ''a'' (db (state_after ?h1 ?c)) = (Some [1], db (state_after ?h1 ?c))"
    by (simp only: s1)
  have "hits_since_reset (replicate 11 (Lookup 10 1 ''a'') @ ?h1) ?c = 11"
    using repeated_lookup [OF hit, of 11 1] m1 by simp
  then show "hits_since_reset eleven_of_twenty new_SmartTimeSeriesCache = 11"
    by (simp only: eleven_of_twenty_def)
  show "lookups_since_reset eleven_of_twenty = 20"
    by (simp add: eleven_of_twenty_def lookups_replicate)
qed

text \<open>
  Claim C10, as amended. From a cache whose counters are zero (a new cache, or one
  whose statistics were just reset), after any history of operations:
  \<open>totalRequests\<close> is the number of lookups since the last reset, \<open>totalHits\<close> is the
  number of those lookups for which the store returned a payload (so each lookup
  adds one to it exactly then) and is at most \<open>totalRequests\<close>, and whenever
  \<open>totalRequests\<close> is positive \<open>hitRate\<close> is the double that the source computes:
  the quotient \<open>totalHits / totalRequests\<close> rounded to a double, multiplied by
  \<open>100\<close> and rounded again.
\<close>

theorem cache_stats_invariant:
  assumes "totalRequests (stats c) = 0" and "totalHits (stats c) = 0"
  shows "totalRequests (stats (state_after h c)) = lookups_since_reset h \<and>
         totalHits (stats (state_after h c)) = hits_since_reset h c \<and>
         totalHits (stats (state_after h c)) \<le> totalRequests (stats (state_after h c)) \<and>
         (0 < totalRequests (stats (state_after h c)) \<longrightarrow>
            hitRate (stats (state_after h c))
              = fl_mul
                  (fl_div (double_of_int (int (totalHits (stats (state_after h c)))))
                     (double_of_int (int (totalRequests (stats (state_after h c))))))
                  (double_of_int 100))"
proof -
  have counters: "totalRequests (stats (state_after h c)) = lookups_since_reset h"
    "totalHits (stats (state_after h c)) = hits_since_reset h c"
    using counters_state_after [OF assms] by simp_all
  moreover have "hits_since_reset h c \<le> lookups_since_reset h"
    by (rule hits_le_lookups)
  moreover have "0 < lookups_since_reset h \<Longrightarrow>
      hitRate (stats (state_after h c))
        = fl_mul
            (fl_div (double_of_int (int (totalHits (stats (state_after h c)))))
               (double_of_int (int (totalRequests (stats (state_after h c))))))
            (double_of_int 100)"
    by (rule hitRate_state_after)
  ultimately show ?thesis by simp
qed

theorem cache_stats_invariant_witness:
  "totalRequests (stats (new_SmartTimeSeriesCache :: nat SmartTimeSeriesCache)) = 0 \<and>
   totalHits (stats (new_SmartTimeSeriesCache :: nat SmartTimeSeriesCache)) = 0 \<and>
   lookups_since_reset
     [Lookup 20 1 ''b'', Lookup 10 1 ''a'', Store 0 ''a'' [1::nat] 3600000] = 2 \<and>
   hits_since_reset
     [Lookup 20 1 ''b'', Lookup 10 1 ''a'', Store 0 ''a'' [1::nat] 3600000]
     new_SmartTimeSeriesCache = 1 \<and>
   totalRequests (stats (state_after
     [Lookup 20 1 ''b'', Lookup 10 1 ''a'', Store 0 ''a'' [1::nat] 3600000]
     new_SmartTimeSeriesCache)) = 2 \<and>
   totalHits (stats (state_after
     [Lookup 20 1 ''b'', Lookup 10 1 ''a'', Store 0 ''a'' [1::nat] 3600000]
     new_SmartTimeSeriesCache)) = 1 \<and>
   hitRate (stats (state_after
     [Lookup 20 1 ''b'', Lookup 10 1 ''a'', Store 0 ''a'' [1::nat] 3600000]
     new_SmartTimeSeriesCache)) = Dbl 7036874417766400 (- 47) \<and>
   double_value (Dbl 7036874417766400 (- 47)) = 50"
proof -
  let ?c = "new_SmartTimeSeriesCache :: nat SmartTimeSeriesCache"
  let ?h = "[Lookup 20 1 ''b'', Lookup 10 1 ''a'', Store 0 ''a'' [1::nat] 3600000]"
  have h1: "totalRequests (stats ?c) = 0" and h2: "totalHits (stats ?c) = 0"
    by (simp_all add: new_SmartTimeSeriesCache_def)
  have n: "lookups_since_reset ?h = 2"
    by simp
  have m: "hits_since_reset ?h ?c = 1"
    by (simp add: new_SmartTimeSeriesCache_def cacheTimeSeriesData_def getTimeSeriesData_def
        get_idb_def set_idb_def Let_def)
  have v: "double_value (Dbl 7036874417766400 (- 47)) = 50"
    by (simp add: double_value_def)
  show ?thesis
    using h1 h2 n m v cache_stats_invariant [OF h1 h2, of ?h]
    by (simp add: hitRate_1_of_2)
qed

text \<open>
  The claim as stated fails in its last part. After eleven hits in twenty lookups
  the rate \<open>100 * totalHits / totalRequests\<close> is \<open>55\<close>, which is a double, and the
  \<open>hitRate\<close> of the cache is the next double above it, \<open>55.00000000000001\<close>: the
  quotient \<open>11 / 20\<close> is rounded before it is multiplied by \<open>100\<close>.
\<close>

theorem hitRate_is_rounded:
  "totalRequests (stats (state_after eleven_of_twenty new_SmartTimeSeriesCache)) = 20 \<and>
   totalHits (stats (state_after eleven_of_twenty new_SmartTimeSeriesCache)) = 11 \<and>
   hitRate (stats (state_after eleven_of_twenty new_SmartTimeSeriesCache))
     = Dbl 7740561859543041 (- 47) \<and>
   double_value (hitRate (stats (state_after eleven_of_twenty new_SmartTimeSeriesCache)))
     \<noteq> 100 * real (totalHits (stats (state_after eleven_of_twenty new_SmartTimeSeriesCache)))
         / real (totalRequests (stats (state_after eleven_of_twenty new_SmartTimeSeriesCache))) \<and>
   double_value (double_of_int 55) = 100 * real 11 / real 20 \<and>
   hitRate (stats (state_after eleven_of_twenty new_SmartTimeSeriesCache)) \<noteq> double_of_int 55"
proof -
  let ?c = "new_SmartTimeSeriesCache :: nat SmartTimeSeriesCache"
  let ?S = "stats (state_after eleven_of_twenty ?c)"
  have z: "totalRequests (stats ?c) = 0" "totalHits (stats ?c) = 0"
    by (simp_all add: new_SmartTimeSeriesCache_def)
  have n: "totalRequests ?S = 20" and m: "totalHits ?S = 11"
    using counters_state_after [OF z, of eleven_of_twenty] eleven_of_twenty_counts by simp_all
  have "hitRate ?S
      = fl_mul (fl_div (double_of_int (int (totalHits ?S))) (double_of_int (int (totalRequests ?S))))
          (double_of_int 100)"
    by (rule hitRate_state_after) (simp add: eleven_of_twenty_counts)
  then have r: "hitRate ?S = Dbl 7740561859543041 (- 47)"
    by (simp add: n m hitRate_11_of_20)
  have v: "double_value (Dbl 7740561859543041 (- 47)) \<noteq> 55"
    by (simp add: double_value_def)
  have w: "double_value (Dbl 7740561859543040 (- 47)) = 55"
    by (simp add: double_value_def)
  show ?thesis
    using v w by (simp add: n m r double_of_int_55)
qed


section \<open>Properties of the navigation guards\<close>

lemma canNavigateNext_eq:
  "canNavigateNext (Some dr) now vm
     \<longleftrightarrow> getTime (range_end (rangeAfterNext (Some dr) now vm)) \<le> getTime (range_end dr)"
  by (simp add: canNavigateNext_def rangeAfterNext_def updateDateRange_def navigateNext_def
      setCenterDate_def Let_def)

lemma canNavigatePrevious_eq:
  "canNavigatePrevious (Some dr) now vm
     \<longleftrightarrow> getTime (range_start dr) \<le> getTime (range_start (rangeAfterPrevious (Some dr) now vm))"
  by (simp add: canNavigatePrevious_def rangeAfterPrevious_def updateDateRange_def
      navigatePrevious_def setCenterDate_def Let_def)

lemma scenario_dates:
  "addYears (ymd 2024 3 1) 1 = ymd 2025 3 1"
  "addMonths (ymd 2025 3 1) 6 = ymd 2025 9 1"
  "subYears (ymd 2020 3 1) 1 = ymd 2019 3 1"
  "subMonths (ymd 2019 3 1) 6 = ymd 2018 9 1"
  by (simp_all add: addYears_def subYears_def subMonths_def addMonths_def ymd_def
      days_in_month_def)

lemma scenario_times:
  "getTime (ymd 2025 9 1) = 1756684800000"
  "getTime (ymd 2024 6 1) = 1717200000000"
  "getTime (ymd 2018 9 1) = 1535760000000"
  "getTime (ymd 2020 1 1) = 1577836800000"
  by (simp_all add: getTime_def ymd_def days_from_civil_def)

lemma canNavigateNext_scenario:
  "canNavigateNext
     (Some \<lparr>range_start = ymd 2020 1 1, range_end = ymd 2024 6 1\<rparr>) now
     (vm\<lparr>currentMode := Year1, centerDate := ymd 2024 3 1\<rparr>) = False"
  by (simp add: canNavigateNext_def calculateDateRange_def scenario_dates scenario_times
      del: One_nat_def)

text \<open>
  Claim C8. With a known dataset span, each guard simulates one navigation step:
  \<open>canNavigateNext\<close> is false whenever the end of the range after the step to the
  next position is later than the end of the span, and \<open>canNavigatePrevious\<close> is false
  whenever the start of the range after the step to the previous position is earlier
  than the start of the span. With the span 2020-01-01 to 2024-06-01, the mode 1year
  and the center date 2024-03-01, \<open>canNavigateNext\<close> is false.
\<close>

theorem navigation_guards:
  "(getTime (range_end (rangeAfterNext (Some dr) now vm)) > getTime (range_end dr)
      \<longrightarrow> canNavigateNext (Some dr) now vm = False) \<and>
   (getTime (range_start (rangeAfterPrevious (Some dr) now vm)) < getTime (range_start dr)
      \<longrightarrow> canNavigatePrevious (Some dr) now vm = False) \<and>
   canNavigateNext
     (Some \<lparr>range_start = ymd 2020 1 1, range_end = ymd 2024 6 1\<rparr>) now
     (vm\<lparr>currentMode := Year1, centerDate := ymd 2024 3 1\<rparr>) = False"
  using canNavigateNext_eq [of dr now vm] canNavigatePrevious_eq [of dr now vm]
    canNavigateNext_scenario [of now vm]
  by simp

theorem navigation_guards_witness:
  "getTime (range_end (rangeAfterNext (Some scenario_span) (ymd 2024 6 15)
      (scenario_state (ymd 2024 3 1)))) > getTime (range_end scenario_span) \<and>
   canNavigateNext (Some scenario_span) (ymd 2024 6 15) (scenario_state (ymd 2024 3 1)) = False \<and>
   getTime (range_start (rangeAfterPrevious (Some scenario_span) (ymd 2024 6 15)
      (scenario_state (ymd 2020 3 1)))) < getTime (range_start scenario_span) \<and>
   canNavigatePrevious (Some scenario_span) (ymd 2024 6 15) (scenario_state (ymd 2020 3 1)) = False"
proof -
  have n: "getTime (range_end (rangeAfterNext (Some scenario_span) (ymd 2024 6 15)
      (scenario_state (ymd 2024 3 1)))) > getTime (range_end scenario_span)"
    by (simp add: rangeAfterNext_def updateDateRange_def navigateNext_def setCenterDate_def
        calculateDateRange_def scenario_span_def scenario_state_def scenario_dates
        scenario_times del: One_nat_def)
  have p: "getTime (range_start (rangeAfterPrevious (Some scenario_span) (ymd 2024 6 15)
      (scenario_state (ymd 2020 3 1)))) < getTime (range_start scenario_span)"
    by (simp add: rangeAfterPrevious_def updateDateRange_def navigatePrevious_def
        setCenterDate_def calculateDateRange_def scenario_span_def scenario_state_def
        scenario_dates scenario_times del: One_nat_def)
  show ?thesis
    using n p
      navigation_guards [of scenario_span "ymd 2024 6 15" "scenario_state (ymd 2024 3 1)"]
      navigation_guards [of scenario_span "ymd 2024 6 15" "scenario_state (ymd 2020 3 1)"]
    by blast
qed


section \<open>Properties of the cache keys\<close>

lemma length_pad [simp]: "length (pad w n) = w"
  by (induction w arbitrary: n) auto

lemma mod10_cases: "(n::nat) mod 10 \<in> {0, 1, 2, 3, 4, 5, 6, 7, 8, 9}"
proof -
  have "n mod 10 = 0 \<or> n mod 10 = 1 \<or> n mod 10 = 2 \<or> n mod 10 = 3 \<or> n mod 10 = 4 \<or>
        n mod 10 = 5 \<or> n mod 10 = 6 \<or> n mod 10 = 7 \<or> n mod 10 = 8 \<or> n mod 10 = 9"
    by presburger
  then show ?thesis by blast
qed

lemma of_char_digit_char: "(of_char (digit_char n) :: nat) = 48 + n mod 10"
  using mod10_cases [of n] unfolding digit_char_def by (elim insertE emptyE) simp_all

lemma digit_char_inj:
  assumes "digit_char a = digit_char b"
  shows "a mod 10 = b mod 10"
proof -
  have "(of_char (digit_char a) :: nat) = of_char (digit_char b)"
    using assms by simp
  then show ?thesis
    by (simp add: of_char_digit_char)
qed

lemma digit_char_not_dash: "digit_char n \<noteq> CHR ''-''"
proof
  assume "digit_char n = CHR ''-''"
  then have "(of_char (digit_char n) :: nat) = of_char (CHR ''-'')" by simp
  then show False by (simp add: of_char_digit_char)
qed

lemma pad_not_dash: "CHR ''-'' \<notin> set (pad w n)"
  by (induction w arbitrary: n) (auto simp: digit_char_not_dash [symmetric])

lemma pad_inj:
  "n < 10 ^ w \<Longrightarrow> m < 10 ^ w \<Longrightarrow> pad w n = pad w m \<Longrightarrow> n = m"
proof (induction w arbitrary: n m)
  case 0
  then show ?case by simp
next
  case (Suc w)
  from Suc.prems(3) have eq: "pad w (n div 10) = pad w (m div 10)"
    and d: "digit_char (n mod 10) = digit_char (m mod 10)"
    by simp_all
  from Suc.prems(1,2) have "n div 10 < 10 ^ w" "m div 10 < 10 ^ w"
    by (simp_all add: less_mult_imp_div_less mult.commute)
  with Suc.IH eq have q: "n div 10 = m div 10" by blast
  from digit_char_inj [OF d] have r: "n mod 10 = m mod 10" by simp
  have "n = n div 10 * 10 + n mod 10" by simp
  also have "\<dots> = m div 10 * 10 + m mod 10" by (simp only: q r)
  also have "\<dots> = m" by simp
  finally show ?case .
qed

lemma dash_position:
  assumes "a @ c # x = b @ c # y" and "length x < length y"
  shows "y ! (length y - length x - 1) = c"
proof -
  from assms(2) obtain k where "length y = Suc (length x + k)"
    by (rule less_imp_Suc_add [THEN exE])
  then have k: "length y = length x + Suc k" by simp
  have "length (a @ c # x) = length (b @ c # y)"
    by (simp only: assms(1))
  with k have len: "length a = length b + Suc k" by simp
  have "(b @ c # y) ! length a = (a @ c # x) ! length a"
    by (simp only: assms(1))
  also have "\<dots> = c" by simp
  finally have "(b @ c # y) ! (length b + Suc k) = c"
    by (simp only: len)
  then have "y ! k = c" by (simp add: nth_append)
  with k show ?thesis by simp
qed

lemma frame_no_sep:
  assumes "a @ c # x = b @ c # y" and "c \<notin> set x" and "c \<notin> set y"
  shows "a = b \<and> x = y"
proof -
  have len: "length x = length y"
  proof (rule ccontr)
    assume "length x \<noteq> length y"
    then consider "length x < length y" | "length y < length x" by linarith
    then show False
    proof cases
      case 1
      from dash_position [OF assms(1) 1] have "c \<in> set y"
        using 1 nth_mem [of "length y - length x - 1" y] by simp
      with assms(3) show False by simp
    next
      case 2
      from dash_position [OF assms(1) [symmetric] 2] have "c \<in> set x"
        using 2 nth_mem [of "length x - length y - 1" x] by simp
      with assms(2) show False by simp
    qed
  qed
  have "(a @ c # x = b @ c # y) = (a = b \<and> c # x = c # y)"
    by (rule append_eq_append_conv) (simp add: len)
  with assms(1) show ?thesis by blast
qed

lemma length_year_string:
  "length (year_string y) = (if 0 \<le> y \<and> y \<le> 9999 then 4 else 7)"
  by (simp add: year_string_def)

lemma length_toISOString:
  "length (toISOString d) = (if 0 \<le> getFullYear d \<and> getFullYear d \<le> 9999 then 24 else 27)"
  by (simp add: toISOString_def length_year_string)

lemma year_string_inj:
  assumes "\<bar>y1\<bar> < 1000000" and "\<bar>y2\<bar> < 1000000" and "year_string y1 = year_string y2"
  shows "y1 = y2"
proof -
  from assms(3) have "length (year_string y1) = length (year_string y2)"
    by (simp only:)
  then have form: "(0 \<le> y1 \<and> y1 \<le> 9999) = (0 \<le> y2 \<and> y2 \<le> 9999)"
    by (auto simp: length_year_string split: if_splits)
  show ?thesis
  proof (cases "0 \<le> y1 \<and> y1 \<le> 9999")
    case True
    with form have t2: "0 \<le> y2 \<and> y2 \<le> 9999" by simp
    from True t2 assms(3) have "pad 4 (nat y1) = pad 4 (nat y2)"
      by (simp add: year_string_def)
    moreover from True t2 have "nat y1 < 10 ^ 4" "nat y2 < 10 ^ 4" by auto
    ultimately have "nat y1 = nat y2" by (rule pad_inj [rotated 2])
    with True t2 show ?thesis by auto
  next
    case False
    with form have f2: "\<not> (0 \<le> y2 \<and> y2 \<le> 9999)" by simp
    from False f2 assms(3) have sign: "(y1 < 0) = (y2 < 0)"
      and p: "pad 6 (nat \<bar>y1\<bar>) = pad 6 (nat \<bar>y2\<bar>)"
      by (simp_all add: year_string_def split: if_splits)
    from assms(1,2) have "nat \<bar>y1\<bar> < 10 ^ 6" "nat \<bar>y2\<bar> < 10 ^ 6" by auto
    with p have "nat \<bar>y1\<bar> = nat \<bar>y2\<bar>" by (rule pad_inj [rotated 2])
    with sign show ?thesis by linarith
  qed
qed

lemma toISOString_long_form:
  assumes "\<not> (0 \<le> getFullYear d \<and> getFullYear d \<le> 9999)"
  shows "toISOString d ! 2 \<noteq> CHR ''-''"
proof -
  let ?p = "pad 6 (nat \<bar>getFullYear d\<bar>)"
  from assms have "year_string (getFullYear d)
      = (if getFullYear d < 0 then CHR ''-'' else CHR ''+'') # ?p"
    by (auto simp: year_string_def)
  then have "toISOString d ! 2 = ?p ! 1"
    by (simp add: toISOString_def nth_append)
  moreover have "?p ! 1 \<in> set ?p"
    by (rule nth_mem) simp
  ultimately show ?thesis
    using pad_not_dash [of 6 "nat \<bar>getFullYear d\<bar>"] by metis
qed

lemma days_in_month_le: "days_in_month y m \<le> 31"
  by (simp add: days_in_month_def)

lemma toISOString_inj:
  assumes "valid_date a" and "valid_date b" and "toISOString a = toISOString b"
  shows "a = b"
proof -
  from assms(3) have "length (toISOString a) = length (toISOString b)"
    by (simp only:)
  then have "length (year_string (getFullYear a)) = length (year_string (getFullYear b))"
    by (auto simp: length_toISOString length_year_string split: if_splits)
  with assms(3) have y: "year_string (getFullYear a) = year_string (getFullYear b)"
    and mo: "pad 2 (getMonth a + 1) = pad 2 (getMonth b + 1)"
    and da: "pad 2 (getDate a) = pad 2 (getDate b)"
    and ho: "pad 2 (getHours a) = pad 2 (getHours b)"
    and mi: "pad 2 (getMinutes a) = pad 2 (getMinutes b)"
    and se: "pad 2 (getSeconds a) = pad 2 (getSeconds b)"
    and ms: "pad 3 (getMilliseconds a) = pad 3 (getMilliseconds b)"
    by (simp_all add: toISOString_def)
  from assms(1,2) have "\<bar>getFullYear a\<bar> < 1000000" "\<bar>getFullYear b\<bar> < 1000000"
    by (auto simp: valid_date_def)
  with y have 1: "getFullYear a = getFullYear b" by (simp add: year_string_inj)
  from assms(1,2) have "getMonth a + 1 < 10 ^ 2" "getMonth b + 1 < 10 ^ 2"
    by (auto simp: valid_date_def)
  with mo have "getMonth a + 1 = getMonth b + 1" by (rule pad_inj [rotated 2])
  then have 2: "getMonth a = getMonth b" by simp
  from assms(1,2) have "getDate a < 10 ^ 2" "getDate b < 10 ^ 2"
    using days_in_month_le [of "getFullYear a" "getMonth a"]
      days_in_month_le [of "getFullYear b" "getMonth b"]
    by (auto simp: valid_date_def)
  with da have 3: "getDate a = getDate b" by (rule pad_inj [rotated 2])
  from assms(1,2) have "getHours a < 10 ^ 2" "getHours b < 10 ^ 2"
    by (auto simp: valid_date_def)
  with ho have 4: "getHours a = getHours b" by (rule pad_inj [rotated 2])
  from assms(1,2) have "getMinutes a < 10 ^ 2" "getMinutes b < 10 ^ 2"
    by (auto simp: valid_date_def)
  with mi have 5: "getMinutes a = getMinutes b" by (rule pad_inj [rotated 2])
  from assms(1,2) have "getSeconds a < 10 ^ 2" "getSeconds b < 10 ^ 2"
    by (auto simp: valid_date_def)
  with se have 6: "getSeconds a = getSeconds b" by (rule pad_inj [rotated 2])
  from assms(1,2) have "getMilliseconds a < 10 ^ 3" "getMilliseconds b < 10 ^ 3"
    by (auto simp: valid_date_def)
  with ms have 7: "getMilliseconds a = getMilliseconds b" by (rule pad_inj [rotated 2])
  from 1 2 3 4 5 6 7 show ?thesis by simp
qed

lemma resolution_token_no_dash: "CHR ''-'' \<notin> set (resolution_token r)"
  by (cases r) simp_all

lemma resolution_token_inj: "resolution_token r1 = resolution_token r2 \<Longrightarrow> r1 = r2"
  by (cases r1; cases r2) simp_all

lemma toISOString_frame:
  assumes "a @ CHR ''-'' # toISOString d1 = b @ CHR ''-'' # toISOString d2"
  shows "a = b \<and> toISOString d1 = toISOString d2"
proof -
  have len: "length (toISOString d1) = length (toISOString d2)"
  proof (rule ccontr)
    assume "length (toISOString d1) \<noteq> length (toISOString d2)"
    then consider "length (toISOString d1) < length (toISOString d2)"
      | "length (toISOString d2) < length (toISOString d1)" by linarith
    then show False
    proof cases
      case 1
      then have long: "\<not> (0 \<le> getFullYear d2 \<and> getFullYear d2 \<le> 9999)"
        and l1: "length (toISOString d1) = 24" and l2: "length (toISOString d2) = 27"
        by (auto simp: length_toISOString split: if_splits)
      from dash_position [OF assms 1] have "toISOString d2 ! 2 = CHR ''-''"
        by (simp add: l1 l2)
      with toISOString_long_form [OF long] show False by simp
    next
      case 2
      then have long: "\<not> (0 \<le> getFullYear d1 \<and> getFullYear d1 \<le> 9999)"
        and l1: "length (toISOString d1) = 27" and l2: "length (toISOString d2) = 24"
        by (auto simp: length_toISOString split: if_splits)
      from dash_position [OF assms [symmetric] 2] have "toISOString d1 ! 2 = CHR ''-''"
        by (simp add: l1 l2)
      with toISOString_long_form [OF long] show False by simp
    qed
  qed
  have "(a @ CHR ''-'' # toISOString d1 = b @ CHR ''-'' # toISOString d2)
          = (a = b \<and> CHR ''-'' # toISOString d1 = CHR ''-'' # toISOString d2)"
    by (rule append_eq_append_conv) (simp add: len)
  with assms show ?thesis by blast
qed

lemma dataRangeKey_parts:
  "dataRangeKey w s e r
     = ((w @ CHR ''-'' # toISOString s) @ CHR ''-'' # toISOString e) @ CHR ''-'' # resolution_token r"
  by (simp add: dataRangeKey_def)

text \<open>
  Claim C3. The key that the segment cache builds from a well number, a start date, an
  end date and a resolution is a function of these four (the same arguments give the
  same string), and it is injective: two tuples that differ in any argument, in
  particular in their ranges, give different keys, also when a well number contains
  the separator \<open>-\<close>.
\<close>

theorem dataRangeKey_injective:
  assumes "valid_date s1" and "valid_date e1" and "valid_date s2" and "valid_date e2"
  shows "dataRangeKey w1 s1 e1 r1 = dataRangeKey w2 s2 e2 r2
           \<longleftrightarrow> w1 = w2 \<and> s1 = s2 \<and> e1 = e2 \<and> r1 = r2"
proof
  assume eq: "dataRangeKey w1 s1 e1 r1 = dataRangeKey w2 s2 e2 r2"
  then have "((w1 @ CHR ''-'' # toISOString s1) @ CHR ''-'' # toISOString e1)
                 @ CHR ''-'' # resolution_token r1
             = ((w2 @ CHR ''-'' # toISOString s2) @ CHR ''-'' # toISOString e2)
                 @ CHR ''-'' # resolution_token r2"
    by (simp only: dataRangeKey_parts)
  from frame_no_sep [OF this resolution_token_no_dash resolution_token_no_dash]
  have rest: "(w1 @ CHR ''-'' # toISOString s1) @ CHR ''-'' # toISOString e1
               = (w2 @ CHR ''-'' # toISOString s2) @ CHR ''-'' # toISOString e2"
    and tok: "resolution_token r1 = resolution_token r2"
    by blast+
  from toISOString_frame [OF rest]
  have rest': "w1 @ CHR ''-'' # toISOString s1 = w2 @ CHR ''-'' # toISOString s2"
    and ie: "toISOString e1 = toISOString e2"
    by blast+
  from toISOString_frame [OF rest']
  have w: "w1 = w2" and iss: "toISOString s1 = toISOString s2"
    by blast+
  from toISOString_inj [OF assms(1) assms(3) iss] toISOString_inj [OF assms(2) assms(4) ie]
    resolution_token_inj [OF tok] w
  show "w1 = w2 \<and> s1 = s2 \<and> e1 = e2 \<and> r1 = r2"
    by simp
next
  assume "w1 = w2 \<and> s1 = s2 \<and> e1 = e2 \<and> r1 = r2"
  then show "dataRangeKey w1 s1 e1 r1 = dataRangeKey w2 s2 e2 r2"
    by simp
qed

lemma valid_date_examples:
  "valid_date (ymd 2023 1 1)" "valid_date (ymd 2023 2 1)" "valid_date (ymd 2023 3 1)"
  by (simp_all add: valid_date_def ymd_def days_in_month_def)

theorem dataRangeKey_injective_witness:
  "valid_date (ymd 2023 1 1) \<and> valid_date (ymd 2023 2 1) \<and> valid_date (ymd 2023 3 1) \<and>
   dataRangeKey ''W-1'' (ymd 2023 1 1) (ymd 2023 2 1) Medium
     \<noteq> dataRangeKey ''W-1'' (ymd 2023 1 1) (ymd 2023 3 1) Medium \<and>
   dataRangeKey ''W-1'' (ymd 2023 1 1) (ymd 2023 2 1) Medium
     \<noteq> dataRangeKey ''W'' (ymd 2023 1 1) (ymd 2023 2 1) Medium \<and>
   dataRangeKey ''W-1'' (ymd 2023 1 1) (ymd 2023 2 1) Medium
     \<noteq> dataRangeKey ''W-1'' (ymd 2023 1 1) (ymd 2023 2 1) Low"
proof -
  have ne: "ymd 2023 2 1 \<noteq> ymd 2023 3 1"
    by (simp add: ymd_def)
  show ?thesis
    using valid_date_examples ne
      dataRangeKey_injective [OF valid_date_examples(1) valid_date_examples(2)
        valid_date_examples(1) valid_date_examples(3), of "''W-1''" Medium "''W-1''" Medium]
      dataRangeKey_injective [OF valid_date_examples(1) valid_date_examples(2)
        valid_date_examples(1) valid_date_examples(2), of "''W-1''" Medium "''W''" Medium]
      dataRangeKey_injective [OF valid_date_examples(1) valid_date_examples(2)
        valid_date_examples(1) valid_date_examples(2), of "''W-1''" Medium "''W-1''" Low]
    by simp
qed


section \<open>Properties of the data orchestrator\<close>

lemma preloadRange_frame:
  "state (preloadRange api now props rate s e w) = state w"
  "primaryFetches (preloadRange api now props rate s e w) = primaryFetches w"
  "reported (preloadRange api now props rate s e w) = reported w"
  by (simp_all add: preloadRange_def primaryFetches_def Let_def split: prod.splits)

lemma preloadOffset_frame:
  "state (preloadOffset api now props rate offset w) = state w"
  "primaryFetches (preloadOffset api now props rate offset w) = primaryFetches w"
  "reported (preloadOffset api now props rate offset w) = reported w"
  by (simp_all add: preloadOffset_def preloadRange_frame Let_def)

lemma fold_preloadOffset_frame:
  "state (fold (preloadOffset api now props rate) offsets w) = state w"
  "primaryFetches (fold (preloadOffset api now props rate) offsets w) = primaryFetches w"
  "reported (fold (preloadOffset api now props rate) offsets w) = reported w"
  by (induction offsets arbitrary: w) (simp_all add: preloadOffset_frame)

lemma preloadAdjacentRanges_frame:
  "state (preloadAdjacentRanges api now props rate w) = state w"
  "primaryFetches (preloadAdjacentRanges api now props rate w) = primaryFetches w"
  "reported (preloadAdjacentRanges api now props rate w) = reported w"
  by (simp_all add: preloadAdjacentRanges_def fold_preloadOffset_frame)

lemma preloadAdjacentRanges_Full:
  "currentMode (viewMode props) = Full \<Longrightarrow> preloadAdjacentRanges api now props rate w = w"
  by (simp add: preloadAdjacentRanges_def)

lemma pad_numeral:
  "pad (numeral k) n = pad (pred_numeral k) (n div 10) @ [digit_char (n mod 10)]"
proof -
  have "pad (Suc (pred_numeral k)) n = pad (pred_numeral k) (n div 10) @ [digit_char (n mod 10)]"
    by (rule pad.simps(2))
  then show ?thesis
    by (simp only: numeral_eq_Suc [symmetric])
qed

lemma january_dates:
  "toISOString (range_start (dateRange (viewMode january_props))) = ''2023-01-01T00:00:00.000Z''"
  "toISOString (range_end (dateRange (viewMode january_props))) = ''2023-01-31T23:59:59.999Z''"
  by (simp_all add: january_props_def example_props_def month_view_def toISOString_def
      startOfMonth_def endOfMonth_def ymd_def year_string_def pad_numeral digit_char_def
      days_in_month_def)

lemma january_neighbours:
  "toISOString (setMonth (range_start (dateRange (viewMode january_props)))
     (int (getMonth (range_start (dateRange (viewMode january_props)))) - 1))
     = ''2022-12-01T00:00:00.000Z''"
  "toISOString (setMonth (range_end (dateRange (viewMode january_props)))
     (int (getMonth (range_end (dateRange (viewMode january_props)))) - 1))
     = ''2022-12-31T23:59:59.999Z''"
  "toISOString (setMonth (range_start (dateRange (viewMode january_props)))
     (int (getMonth (range_start (dateRange (viewMode january_props)))) + 1))
     = ''2023-02-01T00:00:00.000Z''"
  "toISOString (setMonth (range_end (dateRange (viewMode january_props)))
     (int (getMonth (range_end (dateRange (viewMode january_props)))) + 1))
     = ''2023-03-03T23:59:59.999Z''"
  by (simp_all add: january_props_def example_props_def month_view_def toISOString_def
      startOfMonth_def endOfMonth_def setMonth_def ymd_def year_string_def pad_numeral
      digit_char_def days_in_month_def is_leap_year_def)

lemma loadData_hit_run:
  assumes "map_of (cache w)
             (cacheKeyOf api props (resolveSamplingRate dd props rangeResponse))
           = Some entry"
    and "now \<le> timestamp entry + ttl entry"
  shows "loadData api dd now props rangeResponse w
         = preloadAdjacentRanges api now props (resolveSamplingRate dd props rangeResponse)
             (w\<lparr>state := (state w)\<lparr>
                   error_st := None,
                   data_st := data_seg (data entry),
                   isLoading_st := False,
                   cacheHit := True,
                   metadata :=
                     \<lparr>totalPoints = length (data_seg (data entry)),
                      dateRange_md = Some (startDate_seg (data entry), endDate_seg (data entry)),
                      cacheStatus_md = \<lparr>hit = True, preloaded = False, cachedSegments = 1\<rparr>\<rparr>\<rparr>\<rparr>)"
proof -
  from assms
  have "get_idb now (cacheKeyOf api props (resolveSamplingRate dd props rangeResponse)) (cache w)
          = (Some (data entry), cache w)"
    by (simp add: get_idb_def)
  then show ?thesis
    by (simp add: loadData_def cacheKeyOf_def Let_def)
qed

lemma january_props_fields:
  "currentMode (viewMode january_props) = Month1"
  "wellNumber january_props = ''W1''"
  "databaseId january_props = ''db''"
  by (simp_all add: january_props_def example_props_def month_view_def)

lemma january_rate: "resolveSamplingRate dd january_props rangeResponse = Rate15min"
  by (simp add: resolveSamplingRate_def january_props_fields)

lemma january_key:
  "cacheKeyOf example_methods january_props Rate15min
     = ''W1|15min|2023-01-01T00:00:00.000Z|2023-01-31T23:59:59.999Z''"
  by (simp add: cacheKeyOf_def example_methods_def january_props_fields january_dates)

lemma january_cached_cache:
  "cache january_cached =
     [(''W1|15min|2023-01-01T00:00:00.000Z|2023-01-31T23:59:59.999Z'',
       \<lparr>key = ''W1|15min|2023-01-01T00:00:00.000Z|2023-01-31T23:59:59.999Z'',
        data = january_segment, timestamp = 0, ttl = 3600000\<rparr>)]"
  by (simp add: january_cached_def example_methods_def set_idb_def january_segment_def)

lemma january_cached_fields:
  "state january_cached = initial_DataState"
  "fetches january_cached = []"
  by (simp_all add: january_cached_def empty_world_def)

lemma january_preload:
  "fetches (preloadAdjacentRanges example_methods 1000 january_props Rate15min
      (january_cached\<lparr>state := st\<rparr>))
   = [\<lparr>call_site = PreloadFetch, req_databaseId = ''db'', req_wellNumber = ''W1'',
       req_samplingRate = Rate15min, req_startDate = ''2022-12-01T00:00:00.000Z'',
       req_endDate = ''2022-12-31T23:59:59.999Z''\<rparr>,
      \<lparr>call_site = PreloadFetch, req_databaseId = ''db'', req_wellNumber = ''W1'',
       req_samplingRate = Rate15min, req_startDate = ''2023-02-01T00:00:00.000Z'',
       req_endDate = ''2023-03-03T23:59:59.999Z''\<rparr>]"
  by (simp add: preloadAdjacentRanges_def preloadOffset_def preloadRange_def Let_def
      january_props_fields january_neighbours january_cached_cache january_cached_fields
      example_methods_def get_idb_def)

text \<open>
  Claim C5, as amended. When the segment of the requested well, resolution and range
  is in the cache and has not expired, \<open>loadData\<close> publishes its readings as they
  are stored, marks the result as a cache hit and ends the loading, and it makes no
  primary fetch. In the full mode it calls the readings endpoint not at all; in the
  other modes the calls it makes are those of the preloading of neighbouring ranges.
\<close>

theorem loadData_cache_hit:
  assumes "map_of (cache w)
             (cacheKeyOf api props (resolveSamplingRate dd props rangeResponse))
           = Some entry"
    and "now \<le> timestamp entry + ttl entry"
  shows "data_st (state (loadData api dd now props rangeResponse w)) = data_seg (data entry) \<and>
         cacheHit (state (loadData api dd now props rangeResponse w)) = True \<and>
         isLoading_st (state (loadData api dd now props rangeResponse w)) = False \<and>
         primaryFetches (loadData api dd now props rangeResponse w) = primaryFetches w \<and>
         (currentMode (viewMode props) = Full \<longrightarrow>
            fetches (loadData api dd now props rangeResponse w) = fetches w)"
proof -
  let ?hit = "w\<lparr>state := (state w)\<lparr>
                   error_st := None,
                   data_st := data_seg (data entry),
                   isLoading_st := False,
                   cacheHit := True,
                   metadata :=
                     \<lparr>totalPoints = length (data_seg (data entry)),
                      dateRange_md = Some (startDate_seg (data entry), endDate_seg (data entry)),
                      cacheStatus_md = \<lparr>hit = True, preloaded = False, cachedSegments = 1\<rparr>\<rparr>\<rparr>\<rparr>"
  have run: "loadData api dd now props rangeResponse w
               = preloadAdjacentRanges api now props
                   (resolveSamplingRate dd props rangeResponse) ?hit"
    by (rule loadData_hit_run [OF assms])
  have "primaryFetches ?hit = primaryFetches w" and "fetches ?hit = fetches w"
    by (simp_all add: primaryFetches_def)
  then show ?thesis
    by (simp add: run preloadAdjacentRanges_frame preloadAdjacentRanges_Full)
qed

lemma january_cached_hit:
  "map_of (cache january_cached)
     (cacheKeyOf example_methods january_props
        (resolveSamplingRate differenceInDays january_props RangeFailed))
   = Some \<lparr>key = ''W1|15min|2023-01-01T00:00:00.000Z|2023-01-31T23:59:59.999Z'',
            data = january_segment, timestamp = 0, ttl = 3600000\<rparr>"
  by (simp add: january_rate january_key january_cached_cache)

lemma full_props_fields:
  "currentMode (viewMode full_props) = Full"
  "wellNumber full_props = ''W1''"
  "databaseId full_props = ''db''"
  "toISOString (range_start (dateRange (viewMode full_props))) = ''2023-01-01T00:00:00.000Z''"
  "toISOString (range_end (dateRange (viewMode full_props))) = ''2023-02-01T00:00:00.000Z''"
  by (simp_all add: full_props_def example_props_def toISOString_def ymd_def year_string_def
      pad_numeral digit_char_def)

lemma full_days: "differenceInDays (ymd 2023 2 1) (ymd 2010 1 1) = 4779"
  by (simp add: differenceInDays_def getTime_def days_from_civil_def ymd_def)

lemma full_rate:
  "resolveSamplingRate differenceInDays full_props full_range_response = Rate1day"
  by (simp add: resolveSamplingRate_def full_props_fields full_range_response_def
      calculateFullViewSampling_def full_days js_div_ceil_def standardInterval_def Let_def
      del: One_nat_def)

lemma full_cached_hit:
  "map_of (cache full_cached)
     (cacheKeyOf example_methods full_props
        (resolveSamplingRate differenceInDays full_props full_range_response))
   = Some \<lparr>key = ''W1|1day|2023-01-01T00:00:00.000Z|2023-02-01T00:00:00.000Z'',
            data = full_segment, timestamp = 0, ttl = 3600000\<rparr>"
  by (simp add: full_rate cacheKeyOf_def full_props_fields full_cached_def empty_world_def
      example_methods_def set_idb_def full_segment_def)

theorem loadData_cache_hit_witness:
  "map_of (cache full_cached)
     (cacheKeyOf example_methods full_props
        (resolveSamplingRate differenceInDays full_props full_range_response))
   = Some \<lparr>key = ''W1|1day|2023-01-01T00:00:00.000Z|2023-02-01T00:00:00.000Z'',
            data = full_segment, timestamp = 0, ttl = 3600000\<rparr> \<and>
   currentMode (viewMode full_props) = Full \<and>
   data_st (state (loadData example_methods differenceInDays 1000 full_props
      full_range_response full_cached)) = [301, 302, 303] \<and>
   cacheHit (state (loadData example_methods differenceInDays 1000 full_props
      full_range_response full_cached)) = True \<and>
   fetches (loadData example_methods differenceInDays 1000 full_props
      full_range_response full_cached) = [] \<and>
   data_st (state (loadData example_methods differenceInDays 1000 january_props
      RangeFailed january_cached)) = [101, 102] \<and>
   primaryFetches (loadData example_methods differenceInDays 1000 january_props
      RangeFailed january_cached) = []"
proof -
  have t: "(1000::int) \<le> timestamp \<lparr>key = ''W1|1day|2023-01-01T00:00:00.000Z|2023-02-01T00:00:00.000Z'',
            data = full_segment, timestamp = 0, ttl = 3600000\<rparr>
          + ttl \<lparr>key = ''W1|1day|2023-01-01T00:00:00.000Z|2023-02-01T00:00:00.000Z'',
            data = full_segment, timestamp = 0, ttl = 3600000\<rparr>"
    by simp
  have u: "(1000::int) \<le> timestamp \<lparr>key = ''W1|15min|2023-01-01T00:00:00.000Z|2023-01-31T23:59:59.999Z'',
            data = january_segment, timestamp = 0, ttl = 3600000\<rparr>
          + ttl \<lparr>key = ''W1|15min|2023-01-01T00:00:00.000Z|2023-01-31T23:59:59.999Z'',
            data = january_segment, timestamp = 0, ttl = 3600000\<rparr>"
    by simp
  have f: "fetches full_cached = []" "primaryFetches january_cached = []"
    by (simp_all add: full_cached_def january_cached_def empty_world_def primaryFetches_def)
  have d: "data_seg full_segment = [301, 302, 303]" "data_seg january_segment = [101, 102]"
    by (simp_all add: full_segment_def january_segment_def)
  show ?thesis
    using full_cached_hit full_props_fields(1) f d
      loadData_cache_hit [OF full_cached_hit t]
      loadData_cache_hit [OF january_cached_hit u]
    by simp
qed

text \<open>
  The claim as stated fails. In the mode 1month, with the segment of January 2023 in
  the cache and no other, \<open>loadData\<close> publishes the stored readings as a cache hit and
  calls the readings endpoint twice, for the ranges that it derives for the previous
  and the next month.
\<close>

theorem loadData_cache_hit_fetches:
  "cacheHit (state (loadData example_methods differenceInDays 1000 january_props
      RangeFailed january_cached)) = True \<and>
   data_st (state (loadData example_methods differenceInDays 1000 january_props
      RangeFailed january_cached)) = [101, 102] \<and>
   fetches (loadData example_methods differenceInDays 1000 january_props
      RangeFailed january_cached)
   = [\<lparr>call_site = PreloadFetch, req_databaseId = ''db'', req_wellNumber = ''W1'',
       req_samplingRate = Rate15min, req_startDate = ''2022-12-01T00:00:00.000Z'',
       req_endDate = ''2022-12-31T23:59:59.999Z''\<rparr>,
      \<lparr>call_site = PreloadFetch, req_databaseId = ''db'', req_wellNumber = ''W1'',
       req_samplingRate = Rate15min, req_startDate = ''2023-02-01T00:00:00.000Z'',
       req_endDate = ''2023-03-03T23:59:59.999Z''\<rparr>]"
proof -
  have u: "(1000::int) \<le> timestamp \<lparr>key = ''W1|15min|2023-01-01T00:00:00.000Z|2023-01-31T23:59:59.999Z'',
            data = january_segment, timestamp = 0, ttl = 3600000\<rparr>
          + ttl \<lparr>key = ''W1|15min|2023-01-01T00:00:00.000Z|2023-01-31T23:59:59.999Z'',
            data = january_segment, timestamp = 0, ttl = 3600000\<rparr>"
    by simp
  note run = loadData_hit_run [OF january_cached_hit u]
  have "data_seg january_segment = [101, 102]"
    by (simp add: january_segment_def)
  then show ?thesis
    by (simp add: run january_rate january_preload preloadAdjacentRanges_frame)
qed

lemma loadData_miss_run:
  assumes "map_of (cache w)
             (cacheKeyOf api props (resolveSamplingRate dd props rangeResponse)) = None"
  shows "loadData api dd now props rangeResponse w
         = w\<lparr>state := (state w)\<lparr>isLoading_st := True, error_st := None\<rparr>,
              fetches := fetches w @
                [\<lparr>call_site = PrimaryFetch, req_databaseId = databaseId props,
                  req_wellNumber = wellNumber props,
                  req_samplingRate = resolveSamplingRate dd props rangeResponse,
                  req_startDate = toISOString (range_start (dateRange (viewMode props))),
                  req_endDate = toISOString (range_end (dateRange (viewMode props)))\<rparr>]\<rparr>"
proof -
  from assms
  have "get_idb now (cacheKeyOf api props (resolveSamplingRate dd props rangeResponse)) (cache w)
          = (None, cache w)"
    by (simp add: get_idb_def)
  then show ?thesis
    by (simp add: loadData_def cacheKeyOf_def Let_def)
qed

lemma february_props_fields:
  "currentMode (viewMode february_props) = Month1"
  "wellNumber february_props = ''W1''"
  "databaseId february_props = ''db''"
  "toISOString (range_start (dateRange (viewMode february_props))) = ''2023-02-01T00:00:00.000Z''"
  "toISOString (range_end (dateRange (viewMode february_props))) = ''2023-02-28T23:59:59.999Z''"
  by (simp_all add: february_props_def example_props_def month_view_def toISOString_def
      startOfMonth_def endOfMonth_def ymd_def year_string_def pad_numeral digit_char_def
      days_in_month_def is_leap_year_def)

lemma race_issued_fetches:
  "fetches race_issued
   = [\<lparr>call_site = PrimaryFetch, req_databaseId = ''db'', req_wellNumber = ''W1'',
       req_samplingRate = Rate15min, req_startDate = ''2023-01-01T00:00:00.000Z'',
       req_endDate = ''2023-01-31T23:59:59.999Z''\<rparr>,
      \<lparr>call_site = PrimaryFetch, req_databaseId = ''db'', req_wellNumber = ''W1'',
       req_samplingRate = Rate15min, req_startDate = ''2023-02-01T00:00:00.000Z'',
       req_endDate = ''2023-02-28T23:59:59.999Z''\<rparr>]"
proof -
  let ?e = "empty_world :: nat hook_world"
  let ?w1 = "loadData example_methods differenceInDays 0 january_props RangeFailed ?e"
  have "map_of (cache ?e) k = None" for k
    by (simp add: empty_world_def)
  from loadData_miss_run [OF this]
  have w1: "?w1 = ?e\<lparr>
              state := (state ?e)\<lparr>isLoading_st := True, error_st := None\<rparr>,
              fetches := fetches ?e @
                [\<lparr>call_site = PrimaryFetch, req_databaseId = ''db'', req_wellNumber = ''W1'',
                  req_samplingRate = Rate15min, req_startDate = ''2023-01-01T00:00:00.000Z'',
                  req_endDate = ''2023-01-31T23:59:59.999Z''\<rparr>]\<rparr>"
    by (simp add: january_props_fields january_rate january_dates)
  have f1: "fetches ?w1
             = [\<lparr>call_site = PrimaryFetch, req_databaseId = ''db'', req_wellNumber = ''W1'',
                 req_samplingRate = Rate15min, req_startDate = ''2023-01-01T00:00:00.000Z'',
                 req_endDate = ''2023-01-31T23:59:59.999Z''\<rparr>]"
    by (subst w1) (simp add: empty_world_def)
  have "map_of (cache ?w1) k = None" for k
    by (subst w1) (simp add: empty_world_def)
  from loadData_miss_run [OF this]
  have "fetches (loadData example_methods differenceInDays 1 february_props RangeFailed ?w1)
        = fetches ?w1 @
            [\<lparr>call_site = PrimaryFetch, req_databaseId = ''db'', req_wellNumber = ''W1'',
              req_samplingRate = Rate15min, req_startDate = ''2023-02-01T00:00:00.000Z'',
              req_endDate = ''2023-02-28T23:59:59.999Z''\<rparr>]"
    by (simp add: february_props_fields resolveSamplingRate_def)
  then show ?thesis
    by (simp add: race_issued_def f1)
qed

text \<open>
  Claim C2, as amended. When the primary fetch of an invocation of \<open>loadData\<close> is
  answered with readings, these readings are published as the data of the hook, not
  as a cache hit, and the loading ends, whatever was published before and whichever
  navigation state is current by then: no answer is discarded as stale, and the
  published data are those of the primary fetch that was answered last.
\<close>

theorem loadData_onResponse_publishes:
  "data_st (state (loadData_onResponse api dd now props rangeResponse (ResponseData d) w)) = d \<and>
   isLoading_st (state (loadData_onResponse api dd now props rangeResponse (ResponseData d) w))
     = False \<and>
   cacheHit (state (loadData_onResponse api dd now props rangeResponse (ResponseData d) w))
     = False"
  by (simp add: loadData_onResponse_def Let_def preloadAdjacentRanges_frame)

lemma onResponse_data:
  "data_st (state (loadData_onResponse api dd now props rangeResponse (ResponseData d) w)) = d"
  by (simp add: loadData_onResponse_def Let_def preloadAdjacentRanges_frame)

text \<open>
  The claim as stated fails. The primary fetches for January and then for February
  are both under way; the answer for February is published; the late answer for
  January is published over it.
\<close>

theorem stale_response_overwrites:
  "fetches race_issued
   = [\<lparr>call_site = PrimaryFetch, req_databaseId = ''db'', req_wellNumber = ''W1'',
       req_samplingRate = Rate15min, req_startDate = ''2023-01-01T00:00:00.000Z'',
       req_endDate = ''2023-01-31T23:59:59.999Z''\<rparr>,
      \<lparr>call_site = PrimaryFetch, req_databaseId = ''db'', req_wellNumber = ''W1'',
       req_samplingRate = Rate15min, req_startDate = ''2023-02-01T00:00:00.000Z'',
       req_endDate = ''2023-02-28T23:59:59.999Z''\<rparr>] \<and>
   data_st (state race_february_answered) = [201, 202] \<and>
   data_st (state race_january_answered) = [101, 102]"
  by (simp add: race_issued_fetches race_february_answered_def race_january_answered_def
      onResponse_data)

end
